theory Spec2Isabelle
  imports Main "HOL-Library.Log_Nat" "HOL-Library.Sublist" "HOL-Library.AList"
begin

section \<open>Python floats: IEEE 754 binary64 with round-to-nearest-even\<close>

text \<open>
  The tiler of \<^verbatim>\<open>osm.py\<close> computes with Python floats, so its model does too. A float is
  a finite value (held as the exact rational it denotes), an infinity or a NaN. Every
  arithmetic operation computes the exact rational result and rounds it to the nearest
  binary64 value, ties to the even significand, overflowing to an infinity. The sign of
  zero is not modelled: Python's \<^verbatim>\<open>==\<close>, \<^verbatim>\<open><\<close> and \<^verbatim>\<open>int()\<close> do not see it.
\<close>

datatype pyfloat = Fin rat | PInf | NInf | NaN

text \<open>What a \<^verbatim>\<open>RequestException\<close> reports: a transport failure, or the status code of an
  HTTP error.\<close>

datatype failure = Transport string | HTTPError nat

datatype py_error =
    ZeroDivisionError
  | OverflowError
  | ValueError
  | RequestException failure
  | OSError string

text \<open>\<open>ilog2 x\<close> is the exponent \<open>e\<close> with \<open>2 powi e \<le> x < 2 powi (e + 1)\<close>, for positive \<open>x\<close>.\<close>

definition ilog2 :: "rat \<Rightarrow> int" where
  "ilog2 x = (case quotient_of x of (p, q) \<Rightarrow>
     let d = bitlen p - bitlen q in if 2 powi d \<le> x then d else d - 1)"

definition round_half_even :: "rat \<Rightarrow> int" where
  "round_half_even x = (let f = \<lfloor>x\<rfloor>; r = x - of_int f in
     if r < 1/2 then f else if 1/2 < r then f + 1 else if even f then f else f + 1)"

text \<open>The spacing of binary64 values around a positive magnitude: 52 fraction bits below
  the leading bit, and the fixed spacing \<open>2 powi (- 1074)\<close> in the subnormal range.\<close>

definition quantum :: "rat \<Rightarrow> rat" where
  "quantum a = 2 powi (max (ilog2 a) (- 1022) - 52)"

definition round_mag :: "rat \<Rightarrow> rat" where
  "round_mag a = of_int (round_half_even (a / quantum a)) * quantum a"

definition overflow_threshold :: rat where
  "overflow_threshold = 2 powi 1024"

definition rnd :: "rat \<Rightarrow> pyfloat" where
  "rnd x = (if x = 0 then Fin 0 else
     let v = round_mag \<bar>x\<bar>
     in if overflow_threshold \<le> v then (if 0 < x then PInf else NInf)
        else Fin (if 0 < x then v else - v))"

text \<open>A decimal literal of the source denotes the binary64 value nearest to it.\<close>

definition float_lit :: "rat \<Rightarrow> pyfloat" where
  "float_lit x = rnd x"

fun fneg :: "pyfloat \<Rightarrow> pyfloat" where
  "fneg (Fin x) = Fin (- x)"
| "fneg PInf = NInf"
| "fneg NInf = PInf"
| "fneg NaN = NaN"

fun fadd :: "pyfloat \<Rightarrow> pyfloat \<Rightarrow> pyfloat" where
  "fadd (Fin x) (Fin y) = rnd (x + y)"
| "fadd NaN _ = NaN"
| "fadd _ NaN = NaN"
| "fadd PInf NInf = NaN"
| "fadd NInf PInf = NaN"
| "fadd PInf _ = PInf"
| "fadd _ PInf = PInf"
| "fadd NInf _ = NInf"
| "fadd _ NInf = NInf"

definition fsub :: "pyfloat \<Rightarrow> pyfloat \<Rightarrow> pyfloat" where
  "fsub a b = fadd a (fneg b)"

fun fsign :: "pyfloat \<Rightarrow> int" where
  "fsign (Fin x) = (if x < 0 then - 1 else if x = 0 then 0 else 1)"
| "fsign PInf = 1"
| "fsign NInf = - 1"
| "fsign NaN = 0"

definition inf_of_sign :: "int \<Rightarrow> pyfloat" where
  "inf_of_sign s = (if s = 0 then NaN else if 0 < s then PInf else NInf)"

fun fmul :: "pyfloat \<Rightarrow> pyfloat \<Rightarrow> pyfloat" where
  "fmul (Fin x) (Fin y) = rnd (x * y)"
| "fmul NaN _ = NaN"
| "fmul _ NaN = NaN"
| "fmul a b = inf_of_sign (fsign a * fsign b)"

text \<open>Python's true division raises on a zero divisor, whatever the dividend.\<close>

fun fdiv :: "pyfloat \<Rightarrow> pyfloat \<Rightarrow> py_error + pyfloat" where
  "fdiv a (Fin y) =
     (if y = 0 then Inl ZeroDivisionError
      else case a of
             Fin x \<Rightarrow> Inr (rnd (x / y))
           | NaN \<Rightarrow> Inr NaN
           | _ \<Rightarrow> Inr (inf_of_sign (fsign a * fsign (Fin y))))"
| "fdiv NaN _ = Inr NaN"
| "fdiv _ NaN = Inr NaN"
| "fdiv (Fin x) _ = Inr (Fin 0)"
| "fdiv _ _ = Inr NaN"

fun flt :: "pyfloat \<Rightarrow> pyfloat \<Rightarrow> bool" where
  "flt NaN _ = False"
| "flt _ NaN = False"
| "flt (Fin x) (Fin y) = (x < y)"
| "flt PInf _ = False"
| "flt _ PInf = True"
| "flt _ NInf = False"
| "flt NInf _ = True"

fun fle :: "pyfloat \<Rightarrow> pyfloat \<Rightarrow> bool" where
  "fle NaN _ = False"
| "fle _ NaN = False"
| "fle (Fin x) (Fin y) = (x \<le> y)"
| "fle _ PInf = True"
| "fle NInf _ = True"
| "fle PInf _ = False"
| "fle _ NInf = False"

text \<open>\<^verbatim>\<open>min(a, b)\<close> keeps its first argument unless the second is smaller.\<close>

definition py_min :: "pyfloat \<Rightarrow> pyfloat \<Rightarrow> pyfloat" where
  "py_min a b = (if flt b a then b else a)"

text \<open>\<^verbatim>\<open>int(x)\<close> truncates towards zero and raises on an infinity or a NaN.\<close>

fun py_int :: "pyfloat \<Rightarrow> py_error + int" where
  "py_int (Fin x) = Inr (if 0 \<le> x then \<lfloor>x\<rfloor> else \<lceil>x\<rceil>)"
| "py_int PInf = Inl OverflowError"
| "py_int NInf = Inl OverflowError"
| "py_int NaN = Inl ValueError"

text \<open>In \<^verbatim>\<open>i * step\<close> the integer is converted to the nearest float first. (Python raises
  only when the integer is beyond the float range, which no loop index reaches: an index is
  at most one more than the truncation of a finite float.)\<close>

definition float_of_int :: "int \<Rightarrow> pyfloat" where
  "float_of_int i = rnd (of_int i)"

section \<open>The tiler\<close>

type_synonym bbox = "pyfloat \<times> pyfloat \<times> pyfloat \<times> pyfloat"

definition bbox_min_lat :: "bbox \<Rightarrow> pyfloat" where
  "bbox_min_lat b = fst b"

definition bbox_min_lon :: "bbox \<Rightarrow> pyfloat" where
  "bbox_min_lon b = fst (snd b)"

definition bbox_max_lat :: "bbox \<Rightarrow> pyfloat" where
  "bbox_max_lat b = fst (snd (snd b))"

definition bbox_max_lon :: "bbox \<Rightarrow> pyfloat" where
  "bbox_max_lon b = snd (snd (snd b))"

definition py_range :: "int \<Rightarrow> int list" where
  "py_range n = map int [0..<nat n]"

text \<open>\<^verbatim>\<open>int((hi - lo) / step) + 1\<close>, with the exceptions of the division and of \<^verbatim>\<open>int\<close>.\<close>

definition count_steps :: "pyfloat \<Rightarrow> pyfloat \<Rightarrow> pyfloat \<Rightarrow> py_error + int" where
  "count_steps hi lo step =
     (case fdiv (fsub hi lo) step of
        Inl e \<Rightarrow> Inl e
      | Inr q \<Rightarrow> (case py_int q of Inl e \<Rightarrow> Inl e | Inr k \<Rightarrow> Inr (k + 1)))"

definition divide_area_to_bboxes ::
  "pyfloat \<Rightarrow> pyfloat \<Rightarrow> pyfloat \<Rightarrow> pyfloat \<Rightarrow> pyfloat \<Rightarrow> py_error + bbox list" where
  "divide_area_to_bboxes min_lat max_lat min_lon max_lon step =
     (case count_steps max_lat min_lat step of
        Inl e \<Rightarrow> Inl e
      | Inr lat_steps \<Rightarrow>
     (case count_steps max_lon min_lon step of
        Inl e \<Rightarrow> Inl e
      | Inr lon_steps \<Rightarrow>
          Inr (fold (\<lambda>i bboxes.
                 fold (\<lambda>j bboxes. bboxes @
                    [(fadd min_lat (fmul (float_of_int i) step),
                      fadd min_lon (fmul (float_of_int j) step),
                      py_min (fadd min_lat (fmul (float_of_int (i + 1)) step)) max_lat,
                      py_min (fadd min_lon (fmul (float_of_int (j + 1)) step)) max_lon)])
                   (py_range lon_steps) bboxes)
               (py_range lat_steps) [])))"

text \<open>Two readings of "the point lies in the tile" along the latitude axis: in the
  closed interval between the bounds of the tile, and in the half-open interval
  \<open>[tile_min, tile_min + step)\<close> of the specification, the sum taken exactly.\<close>

definition lat_in_tile :: "pyfloat \<Rightarrow> bbox \<Rightarrow> bool" where
  "lat_in_tile x b = (fle (bbox_min_lat b) x \<and> fle x (bbox_max_lat b))"

fun in_step_interval :: "pyfloat \<Rightarrow> pyfloat \<Rightarrow> pyfloat \<Rightarrow> bool" where
  "in_step_interval (Fin lo) (Fin s) (Fin x) = (lo \<le> x \<and> x < lo + s)"
| "in_step_interval _ _ _ = False"

definition lat_in_step_interval :: "pyfloat \<Rightarrow> pyfloat \<Rightarrow> bbox \<Rightarrow> bool" where
  "lat_in_step_interval step x b = in_step_interval (bbox_min_lat b) step x"

section \<open>Text, paths and the environment\<close>

definition startswith :: "string \<Rightarrow> string \<Rightarrow> bool" where
  "startswith s p = prefix p s"

definition endswith :: "string \<Rightarrow> string \<Rightarrow> bool" where
  "endswith s p = suffix p s"




text \<open>\<^verbatim>\<open>os.path.join\<close> of two components, as on POSIX.\<close>

definition path_join :: "string \<Rightarrow> string \<Rightarrow> string" where
  "path_join a b =
     (if b \<noteq> [] \<and> hd b = CHR ''/'' then b
      else if a = [] \<or> last a = CHR ''/'' then a @ b
      else a @ ''/'' @ b)"

text \<open>
  The program talks to the network and to the file system, and neither is part of it. The
  environment gives the outcome of each such call:
  \<^item> \<open>net k bbox\<close>, the answer to the \<open>k\<close>-th POST: \<^verbatim>\<open>requests.post\<close> raises a
    \<^verbatim>\<open>RequestException\<close> (no connection, timeout, too many redirects), or it returns the
    final response with its status code and its text;
  \<^item> \<open>path_exists p\<close>, the value of \<^verbatim>\<open>os.path.exists(p)\<close>;
  \<^item> \<open>makedirs_ok p\<close>, whether \<^verbatim>\<open>os.makedirs(p)\<close> returns rather than raises;
  \<^item> \<open>open_ok p\<close>, whether \<^verbatim>\<open>open(p, "w")\<close> returns rather than raises (it raises when the
    directory is missing, when \<open>p\<close> is a directory, when access is denied);
  \<^item> \<open>listdir d\<close>, the names \<^verbatim>\<open>os.listdir(d)\<close> returns, of files and of sub-directories, in
    its order, or the exception it raises;
  \<^item> \<open>read_lines p\<close>, the lines that iterating over \<^verbatim>\<open>open(p, "r", encoding="utf-8")\<close> yields
    (as Python delivers them, line ends translated), and the exception that ends the
    iteration, if any: \<^verbatim>\<open>open\<close> raises on a directory or a missing file, and reading raises on
    bytes that are not UTF-8.
  A write to an open file is taken to succeed. The outcomes are those of the run that is
  described: what a read yields is given by the environment and is not derived from what the
  program wrote before, since other programs write to the same files.
\<close>

datatype net_result = ConnectionFailed string | Response nat string

record env =
  net :: "nat \<Rightarrow> bbox \<Rightarrow> net_result"
  path_exists :: "string \<Rightarrow> bool"
  makedirs_ok :: "string \<Rightarrow> bool"
  open_ok :: "string \<Rightarrow> bool"
  listdir :: "string \<Rightarrow> py_error + string list"
  read_lines :: "string \<Rightarrow> string list \<times> py_error option"

text \<open>The state that the program changes: what it has written to the files it opened (with
  the earlier content of the other files), and the trace of what it printed, posted and
  slept.\<close>

datatype event =
    PrintFetching bbox
  | Post bbox
  | PrintSaved bbox string
  | PrintFailed failure
  | Sleep nat
  | PrintMerged string

record world =
  files :: "(string \<times> string) list"
  trace :: "event list"

definition emit :: "event \<Rightarrow> world \<Rightarrow> world" where
  "emit ev w = w\<lparr>trace := trace w @ [ev]\<rparr>"

fun is_post :: "event \<Rightarrow> bool" where
  "is_post (Post _) = True"
| "is_post _ = False"

definition posts_so_far :: "world \<Rightarrow> nat" where
  "posts_so_far w = length (filter is_post (trace w))"

text \<open>\<^verbatim>\<open>open(p, "w")\<close> creates or truncates; \<^verbatim>\<open>write\<close> appends to what is there.\<close>

definition open_truncate :: "string \<Rightarrow> world \<Rightarrow> world" where
  "open_truncate p w = w\<lparr>files := AList.update p [] (files w)\<rparr>"

definition fwrite :: "string \<Rightarrow> string \<Rightarrow> world \<Rightarrow> world" where
  "fwrite p s w =
     w\<lparr>files := AList.update p (case map_of (files w) p of None \<Rightarrow> s | Some c \<Rightarrow> c @ s) (files w)\<rparr>"

definition file_text :: "world \<Rightarrow> string \<Rightarrow> string" where
  "file_text w p = (case map_of (files w) p of None \<Rightarrow> [] | Some c \<Rightarrow> c)"

section \<open>The fetcher\<close>

text \<open>\<^verbatim>\<open>response.raise_for_status()\<close> of the requests library raises an \<^verbatim>\<open>HTTPError\<close>, which is
  a \<^verbatim>\<open>RequestException\<close>, for the status codes 400 to 599, and returns for every other
  status.\<close>

definition raise_for_status :: "nat \<Rightarrow> py_error option" where
  "raise_for_status status =
     (if 400 \<le> status \<and> status < 600 then Some (RequestException (HTTPError status)) else None)"

text \<open>The \<^verbatim>\<open>try\<close> block: it ends with the pause, and it is left at the first exception.\<close>

definition fetch_try_block :: "env \<Rightarrow> bbox \<Rightarrow> string \<Rightarrow> world \<Rightarrow> py_error option \<times> world" where
  "fetch_try_block environment bbox output_file w =
     (let w1 = emit (PrintFetching bbox) w;
          answer = net environment (posts_so_far w1) bbox;
          w2 = emit (Post bbox) w1
      in case answer of
           ConnectionFailed e \<Rightarrow> (Some (RequestException (Transport e)), w2)
         | Response status osm_data \<Rightarrow>
             (case raise_for_status status of
                Some err \<Rightarrow> (Some err, w2)
              | None \<Rightarrow>
                  if open_ok environment output_file
                  then let w3 = fwrite output_file osm_data (open_truncate output_file w2);
                           w4 = emit (PrintSaved bbox output_file) w3
                       in (None, emit (Sleep 2) w4)
                  else (Some (OSError output_file), w2)))"

text \<open>The handler catches \<^verbatim>\<open>RequestException\<close> only; any other exception leaves the
  function.\<close>

definition fetch_osm_by_bbox :: "env \<Rightarrow> bbox \<Rightarrow> string \<Rightarrow> world \<Rightarrow> py_error option \<times> world" where
  "fetch_osm_by_bbox environment bbox output_file w =
     (case fetch_try_block environment bbox output_file w of
        (Some (RequestException e), w') \<Rightarrow> (None, emit (PrintFailed e) w')
      | (outcome, w') \<Rightarrow> (outcome, w'))"

section \<open>The merger\<close>

definition xml_decl :: string where
  \<open>xml_decl = ''<?xml version="1.0" encoding="UTF-8"?>'' @ [CHR 0x0A]\<close>

definition osm_open :: string where
  \<open>osm_open = ''<osm version="0.6">'' @ [CHR 0x0A]\<close>

definition osm_close :: string where
  "osm_close = ''</osm>''"

definition is_envelope :: "string \<Rightarrow> bool" where
  "is_envelope line =
     (startswith line ''<?xml'' \<or> startswith line ''<osm'' \<or> startswith line ''</osm'')"

definition copy_lines :: "string list \<Rightarrow> string \<Rightarrow> world \<Rightarrow> world" where
  "copy_lines ls output_file w =
     fold (\<lambda>line w. if is_envelope line then w else fwrite output_file line w) ls w"

text \<open>The loop over the files: the lines a file yields are copied as they come, and an
  exception from opening or reading a file ends the merge where it stands.\<close>

fun copy_files :: "env \<Rightarrow> string \<Rightarrow> string list \<Rightarrow> string \<Rightarrow> world \<Rightarrow> py_error option \<times> world" where
  "copy_files environment input_folder [] output_file w = (None, w)"
| "copy_files environment input_folder (file # rest) output_file w =
     (case read_lines environment (path_join input_folder file) of
        (ls, Some e) \<Rightarrow> (Some e, copy_lines ls output_file w)
      | (ls, None) \<Rightarrow>
          copy_files environment input_folder rest output_file (copy_lines ls output_file w))"

definition merge_osm_files :: "env \<Rightarrow> string \<Rightarrow> string \<Rightarrow> world \<Rightarrow> py_error option \<times> world" where
  "merge_osm_files environment input_folder output_file w =
     (case listdir environment input_folder of
        Inl e \<Rightarrow> (Some e, w)
      | Inr names \<Rightarrow>
          let fs = filter (\<lambda>f. endswith f ''.osm'') names
          in if \<not> open_ok environment output_file then (Some (OSError output_file), w)
             else let w1 = open_truncate output_file w;
                      w2 = fwrite output_file xml_decl w1;
                      w3 = fwrite output_file osm_open w2
                  in case copy_files environment input_folder fs output_file w3 of
                       (Some e, w4) \<Rightarrow> (Some e, w4)
                     | (None, w4) \<Rightarrow>
                         (None, emit (PrintMerged output_file) (fwrite output_file osm_close w4)))"

section \<open>The driver\<close>



section \<open>Example environments\<close>

definition empty_world :: world where
  "empty_world = \<lparr>files = [], trace = []\<rparr>"

text \<open>A world in which the destination of a fetch already holds a file.\<close>

definition old_world :: world where
  "old_world = \<lparr>files = [(''part.osm'', ''old'')], trace = []\<rparr>"

definition unit_bbox :: bbox where
  "unit_bbox = (Fin 0, Fin 0, Fin 1, Fin 1)"

text \<open>No connection, an empty directory, and every file can be opened.\<close>

definition offline_env :: env where
  "offline_env =
     \<lparr>net = (\<lambda>k b. ConnectionFailed ''timeout''),
      path_exists = (\<lambda>p. False),
      makedirs_ok = (\<lambda>p. True),
      open_ok = (\<lambda>p. True),
      listdir = (\<lambda>d. Inr []),
      read_lines = (\<lambda>p. ([], None))\<rparr>"

text \<open>The server answers every request with an error status.\<close>

definition server_error_env :: env where
  "server_error_env = offline_env\<lparr>net := (\<lambda>k b. Response 503 ''busy'')\<rparr>"


text \<open>The server answers every request with status 300 and a short text.\<close>

definition multiple_choices_env :: env where
  "multiple_choices_env = offline_env\<lparr>net := (\<lambda>k b. Response 300 ''choices'')\<rparr>"


text \<open>A directory \<^verbatim>\<open>d\<close> with two map files and a file of another type. The first map file
  has its own envelope and a content line that begins like the root tag.\<close>

definition merge_env :: env where
  \<open>merge_env = offline_env
     \<lparr>listdir := (\<lambda>d. if d = ''d'' then Inr [''a.osm'', ''notes.txt'', ''b.osm'']
                       else Inl (OSError d)),
      read_lines := (\<lambda>p.
        if p = ''d/a.osm''
        then ([''<?xml version="1.0" encoding="UTF-8"?>'' @ [CHR 0x0A],
               ''<osm version="0.6">'' @ [CHR 0x0A],
               '' <node id="1"/>'' @ [CHR 0x0A],
               ''<osmAuthor/>'' @ [CHR 0x0A],
               ''</osm>'' @ [CHR 0x0A]], None)
        else if p = ''d/notes.txt'' then ([''<node id="2"/>'' @ [CHR 0x0A]], None)
        else if p = ''d/b.osm'' then ([''<way id="3"/>'' @ [CHR 0x0A]], None)
        else ([], Some (OSError p)))\<rparr>\<close>

text \<open>A directory with no map file in it.\<close>

definition no_osm_env :: env where
  "no_osm_env = offline_env\<lparr>listdir := (\<lambda>d. Inr [''notes.txt'', ''maps''])\<rparr>"

section \<open>Properties of rounding\<close>

lemma bitlen_rat_bounds:
  assumes "0 < p"
  shows "(2::rat) powi (bitlen p - 1) \<le> of_int p" and "of_int p < (2::rat) powi (bitlen p)"
proof -
  from bitlen_bounds[OF assms] have a: "2 ^ nat (bitlen p - 1) \<le> p" and b: "p < 2 ^ nat (bitlen p)"
    by auto
  have ge1: "1 \<le> bitlen p" using assms by (simp add: bitlen_alt_def)
  have "(of_int (2 ^ nat (bitlen p - 1)) :: rat) \<le> of_int p" using a by (simp only: of_int_le_iff)
  then show "(2::rat) powi (bitlen p - 1) \<le> of_int p"
    using ge1 by (simp add: power_int_nonneg_exp)
  have "(of_int p :: rat) < of_int (2 ^ nat (bitlen p))" using b by (simp only: of_int_less_iff)
  then show "of_int p < (2::rat) powi (bitlen p)"
    using ge1 by (simp add: power_int_nonneg_exp)
qed

lemma ilog2_bounds:
  assumes "0 < x"
  shows "2 powi (ilog2 x) \<le> x" and "x < 2 powi (ilog2 x + 1)"
proof -
  obtain p q where pq: "quotient_of x = (p, q)" by (cases "quotient_of x")
  have qpos: "0 < q" using pq by (rule quotient_of_denom_pos)
  have xeq: "x = of_int p / of_int q" using pq by (rule quotient_of_div)
  have ppos: "0 < p" using assms qpos xeq by (simp add: zero_less_divide_iff)
  define d where "d = bitlen p - bitlen q"
  note bp = bitlen_rat_bounds[OF ppos] and bq = bitlen_rat_bounds[OF qpos]
  have qr: "0 < (of_int q :: rat)" using qpos by simp
  have up: "x < 2 powi (d + 1)"
  proof -
    have "of_int p < (2::rat) powi (d + 1) * 2 powi (bitlen q - 1)"
      using bp(2) by (simp add: d_def power_int_add[symmetric])
    also have "\<dots> \<le> 2 powi (d + 1) * of_int q"
      using bq(1) by (simp add: mult_left_mono)
    finally show ?thesis using qr by (simp add: xeq pos_divide_less_eq)
  qed
  have lo: "2 powi (d - 1) < x"
  proof -
    have "(2::rat) powi (d - 1) * of_int q < 2 powi (d - 1) * 2 powi (bitlen q)"
      using bq(2) by (simp add: mult_strict_left_mono)
    also have "\<dots> = 2 powi (bitlen p - 1)"
      by (simp add: d_def power_int_add[symmetric])
    also have "\<dots> \<le> of_int p" using bp(1) .
    finally show ?thesis using qr by (simp add: xeq pos_less_divide_eq)
  qed
  have il: "ilog2 x = (if 2 powi d \<le> x then d else d - 1)"
    by (simp add: ilog2_def pq d_def Let_def)
  show "2 powi (ilog2 x) \<le> x" using lo by (simp add: il)
  show "x < 2 powi (ilog2 x + 1)" using up by (auto simp add: il not_le)
qed

lemma powi2_less_cancel: "(2::rat) powi a < 2 powi b \<Longrightarrow> a < b"
  using power_int_increasing[of b a "2::rat"] by (cases "a < b") auto

lemma ilog2_unique:
  assumes "2 powi e \<le> x" "x < 2 powi (e + 1)"
  shows "ilog2 x = e"
proof -
  have xpos: "0 < x" using assms(1) by (rule less_le_trans[rotated]) simp
  note b = ilog2_bounds[OF xpos]
  have "(2::rat) powi e < 2 powi (ilog2 x + 1)" using assms(1) b(2) by (rule le_less_trans)
  then have 1: "e < ilog2 x + 1" by (rule powi2_less_cancel)
  have "(2::rat) powi (ilog2 x) < 2 powi (e + 1)" using b(1) assms(2) by (rule le_less_trans)
  then have 2: "ilog2 x < e + 1" by (rule powi2_less_cancel)
  from 1 2 show ?thesis by simp
qed


lemma rhe_of_int: "round_half_even (of_int n) = n"
  by (simp add: round_half_even_def)

lemma rhe_near:
  assumes "\<bar>x - of_int m\<bar> < 1/2"
  shows "round_half_even x = m"
proof -
  have ab: "x - of_int m < 1/2" "of_int m - x < 1/2" using assms by linarith+
  have "\<lfloor>x\<rfloor> \<le> m" using ab by (simp add: floor_le_iff)
  moreover have "m - 1 \<le> \<lfloor>x\<rfloor>" using ab by (simp add: le_floor_iff)
  ultimately have "\<lfloor>x\<rfloor> = m \<or> \<lfloor>x\<rfloor> = m - 1" by auto
  then show ?thesis
  proof
    assume f: "\<lfloor>x\<rfloor> = m"
    have "x - of_int m < 1/2" using ab by simp
    then show ?thesis by (simp add: round_half_even_def f)
  next
    assume f: "\<lfloor>x\<rfloor> = m - 1"
    have "1/2 < x - of_int (m - 1)" using ab by simp
    then show ?thesis by (simp add: round_half_even_def f)
  qed
qed

lemma rhe_tie:
  assumes "\<bar>x - of_int m\<bar> = 1/2" "even m"
  shows "round_half_even x = m"
proof -
  from assms(1) consider "x = of_int m + 1/2" | "x = of_int (m - 1) + 1/2" by (auto simp: abs_if split: if_splits) 
  then show ?thesis
  proof cases
    case 1
    have f: "\<lfloor>x\<rfloor> = m" unfolding 1 by (rule floor_unique) simp_all
    show ?thesis using assms(2) by (simp add: round_half_even_def f) (simp add: 1)
  next
    case 2
    have f: "\<lfloor>x\<rfloor> = m - 1" unfolding 2 by (rule floor_unique) simp_all
    show ?thesis using assms(2) by (simp add: round_half_even_def f) (simp add: 2)
  qed
qed

lemma rhe_nearest:
  assumes "\<bar>x - of_int m\<bar> < 1/2 \<or> (\<bar>x - of_int m\<bar> = 1/2 \<and> even m)"
  shows "round_half_even x = m"
  using assms rhe_near rhe_tie by blast

lemma rhe_cases: "round_half_even x = \<lfloor>x\<rfloor> \<or> round_half_even x = \<lfloor>x\<rfloor> + 1"
  by (simp add: round_half_even_def Let_def)

lemma rhe_mono:
  assumes "x \<le> y"
  shows "round_half_even x \<le> round_half_even y"
proof (cases "\<lfloor>x\<rfloor> = \<lfloor>y\<rfloor>")
  case True
  have "x - of_int \<lfloor>x\<rfloor> \<le> y - of_int \<lfloor>y\<rfloor>" using assms True by simp
  then show ?thesis
    by (auto simp add: round_half_even_def Let_def True)
next
  case False
  then have "\<lfloor>x\<rfloor> < \<lfloor>y\<rfloor>" using floor_mono[OF assms] by simp
  moreover have "round_half_even x \<le> \<lfloor>x\<rfloor> + 1" using rhe_cases[of x] by auto
  moreover have "\<lfloor>y\<rfloor> \<le> round_half_even y" using rhe_cases[of y] by auto
  ultimately show ?thesis by simp
qed

lemma quantum_pos: "0 < quantum a"
  by (simp add: quantum_def)

lemma round_mag_nonneg: "0 \<le> a \<Longrightarrow> 0 \<le> round_mag a"
proof -
  assume "0 \<le> a"
  then have "0 \<le> a / quantum a" using quantum_pos[of a] by simp
  then have "round_half_even 0 \<le> round_half_even (a / quantum a)" by (rule rhe_mono)
  then have "0 \<le> round_half_even (a / quantum a)" using rhe_of_int[of 0] by simp
  then show ?thesis using quantum_pos[of a] by (simp add: round_mag_def)
qed

text \<open>Within one binade the rounded magnitude stays between the binade's ends.\<close>

lemma round_mag_binade:
  assumes "2 powi e \<le> a" "a < 2 powi (e + 1)" "- 1022 \<le> e"
  shows "2 powi e \<le> round_mag a" and "round_mag a \<le> 2 powi (e + 1)"
proof -
  have il: "ilog2 a = e" using assms(1,2) by (rule ilog2_unique)
  have q: "quantum a = 2 powi (e - 52)" using assms(3) by (simp add: quantum_def il)
  have lo: "(2::rat) powi e / 2 powi (e - 52) = of_int (2 ^ 52)"
    by (subst power_int_diff[symmetric]) simp_all
  have hi: "(2::rat) powi (e + 1) / 2 powi (e - 52) = of_int (2 ^ 53)"
    by (subst power_int_diff[symmetric]) simp_all
  have "round_half_even (2 powi e / quantum a) \<le> round_half_even (a / quantum a)"
    using assms(1) quantum_pos[of a] by (intro rhe_mono) (simp add: divide_right_mono)
  then have "2 ^ 52 \<le> round_half_even (a / quantum a)"
    unfolding q lo rhe_of_int .
  then have "(of_int (2 ^ 52) :: rat) \<le> of_int (round_half_even (a / quantum a))"
    by (simp only: of_int_le_iff)
  then have "of_int (2 ^ 52) * quantum a \<le> round_mag a"
    using quantum_pos[of a] by (simp add: round_mag_def)
  moreover have "of_int (2 ^ 52) * quantum a = 2 powi e"
    unfolding q lo[symmetric] by simp
  ultimately show "2 powi e \<le> round_mag a" by simp
  have "round_half_even (a / quantum a) \<le> round_half_even (2 powi (e + 1) / quantum a)"
    using assms(2) quantum_pos[of a] by (intro rhe_mono) (simp add: divide_right_mono)
  then have "round_half_even (a / quantum a) \<le> 2 ^ 53"
    unfolding q hi rhe_of_int .
  then have "(of_int (round_half_even (a / quantum a)) :: rat) \<le> of_int (2 ^ 53)"
    by (simp only: of_int_le_iff)
  then have "round_mag a \<le> of_int (2 ^ 53) * quantum a"
    using quantum_pos[of a] by (simp add: round_mag_def)
  moreover have "of_int (2 ^ 53) * quantum a = 2 powi (e + 1)"
    unfolding q hi[symmetric] by simp
  ultimately show "round_mag a \<le> 2 powi (e + 1)" by simp
qed


lemma round_mag_upper:
  assumes "0 < a"
  shows "round_mag a \<le> 2 powi (max (ilog2 a) (- 1022) + 1)"
proof -
  define e where "e = max (ilog2 a) (- 1022)"
  have q: "quantum a = 2 powi (e - 52)" by (simp add: quantum_def e_def)
  have hi: "(2::rat) powi (e + 1) / 2 powi (e - 52) = of_int (2 ^ 53)"
    by (subst power_int_diff[symmetric]) simp_all
  have "a < 2 powi (ilog2 a + 1)" using assms by (rule ilog2_bounds)
  also have "\<dots> \<le> 2 powi (e + 1)" by (rule power_int_increasing) (simp_all add: e_def)
  finally have alt: "a \<le> 2 powi (e + 1)" by simp
  have "round_half_even (a / quantum a) \<le> round_half_even (2 powi (e + 1) / quantum a)"
    using alt quantum_pos[of a] by (intro rhe_mono) (simp add: divide_right_mono)
  then have "round_half_even (a / quantum a) \<le> 2 ^ 53"
    unfolding q hi rhe_of_int .
  then have "(of_int (round_half_even (a / quantum a)) :: rat) \<le> of_int (2 ^ 53)"
    by (simp only: of_int_le_iff)
  then have "round_mag a \<le> of_int (2 ^ 53) * quantum a"
    using quantum_pos[of a] by (simp add: round_mag_def)
  moreover have "of_int (2 ^ 53) * quantum a = 2 powi (e + 1)"
    unfolding q hi[symmetric] by simp
  ultimately show ?thesis by (simp add: e_def)
qed

lemma ilog2_mono:
  assumes "0 < x" "x \<le> y"
  shows "ilog2 x \<le> ilog2 y"
proof -
  have ypos: "0 < y" using assms by simp
  have "2 powi (ilog2 x) \<le> x" using assms(1) by (rule ilog2_bounds)
  also have "x \<le> y" by fact
  also have "y < 2 powi (ilog2 y + 1)" using ypos by (rule ilog2_bounds)
  finally have "ilog2 x < ilog2 y + 1" by (rule powi2_less_cancel)
  then show ?thesis by simp
qed

lemma round_mag_mono:
  assumes "0 < x" "x \<le> y"
  shows "round_mag x \<le> round_mag y"
proof -
  have ypos: "0 < y" using assms by simp
  define ex where "ex = max (ilog2 x) (- 1022)"
  define ey where "ey = max (ilog2 y) (- 1022)"
  have le: "ex \<le> ey" using ilog2_mono[OF assms] by (simp add: ex_def ey_def)
  show ?thesis
  proof (cases "ex = ey")
    case True
    then have q: "quantum x = quantum y" by (simp add: quantum_def ex_def ey_def)
    have "x / quantum y \<le> y / quantum y"
      using assms(2) quantum_pos[of y] by (simp add: divide_right_mono)
    then have "round_half_even (x / quantum y) \<le> round_half_even (y / quantum y)"
      by (rule rhe_mono)
    then have "(of_int (round_half_even (x / quantum y)) :: rat)
                 \<le> of_int (round_half_even (y / quantum y))"
      by (simp only: of_int_le_iff)
    then show ?thesis using quantum_pos[of y] by (simp add: round_mag_def q)
  next
    case False
    then have lt: "ex < ey" using le by simp
    then have ey: "ey = ilog2 y" "- 1022 \<le> ilog2 y" by (auto simp: ex_def ey_def)
    have "round_mag x \<le> 2 powi (ex + 1)"
      using round_mag_upper[OF assms(1)] by (simp add: ex_def)
    also have "\<dots> \<le> 2 powi ey" using lt by (intro power_int_increasing) simp_all
    also have "\<dots> \<le> round_mag y"
      unfolding ey(1) using ilog2_bounds[OF ypos] ey(2) by (rule round_mag_binade(1))
    finally show ?thesis .
  qed
qed

text \<open>An evaluation certificate: a value within half a quantum of a multiple of the
  quantum of its binade rounds to that multiple, and a value halfway between two multiples
  rounds to the even one.\<close>

lemma round_mag_cert:
  assumes "2 powi e \<le> a" "a < 2 powi (e + 1)" "- 1022 \<le> e"
    and "\<bar>a / 2 powi (e - 52) - of_int m\<bar> < 1/2 \<or>
         (\<bar>a / 2 powi (e - 52) - of_int m\<bar> = 1/2 \<and> even m)"
  shows "round_mag a = of_int m * 2 powi (e - 52)"
proof -
  have il: "ilog2 a = e" using assms(1,2) by (rule ilog2_unique)
  have q: "quantum a = 2 powi (e - 52)" using assms(3) by (simp add: quantum_def il)
  show ?thesis unfolding round_mag_def q using rhe_nearest[OF assms(4)] by simp
qed

lemma round_mag_no_overflow:
  assumes "2 powi e \<le> a" "a < 2 powi (e + 1)" "- 1022 \<le> e" "e \<le> 1022"
  shows "round_mag a < overflow_threshold"
proof -
  have "round_mag a \<le> 2 powi (e + 1)" using assms(1-3) by (rule round_mag_binade(2))
  also have "\<dots> < 2 powi 1024" using assms(4) by (intro power_int_strict_increasing) simp_all
  finally show ?thesis by (simp only: overflow_threshold_def)
qed

lemma rnd_cert:
  assumes "2 powi e \<le> a" "a < 2 powi (e + 1)" "- 1022 \<le> e" "e \<le> 1022"
    and "\<bar>a / 2 powi (e - 52) - of_int m\<bar> < 1/2 \<or>
         (\<bar>a / 2 powi (e - 52) - of_int m\<bar> = 1/2 \<and> even m)"
  shows "rnd a = Fin (of_int m * 2 powi (e - 52))"
    and "rnd (- a) = Fin (- (of_int m * 2 powi (e - 52)))"
proof -
  have apos: "0 < a" using assms(1) by (rule less_le_trans[rotated]) simp
  have rm: "round_mag a = of_int m * 2 powi (e - 52)"
    using assms(1-3,5) by (rule round_mag_cert)
  have no: "\<not> overflow_threshold \<le> round_mag a"
    using round_mag_no_overflow[OF assms(1-4)] by simp
  show "rnd a = Fin (of_int m * 2 powi (e - 52))"
    using apos no by (simp add: rnd_def Let_def rm[symmetric])
  show "rnd (- a) = Fin (- (of_int m * 2 powi (e - 52)))"
    using apos no by (simp add: rnd_def Let_def rm[symmetric])
qed

lemma rnd_neg: "rnd (- x) = fneg (rnd x)"
  by (simp add: rnd_def Let_def)

lemma rnd_nonneg:
  assumes "0 \<le> x"
  shows "rnd x = PInf \<or> (\<exists>v. rnd x = Fin v \<and> 0 \<le> v)"
  using assms round_mag_nonneg[of "\<bar>x\<bar>"] by (auto simp add: rnd_def Let_def)

lemma rnd_mono:
  assumes "x \<le> y"
  shows "fle (rnd x) (rnd y)"
proof -
  consider "x = 0" | "y = 0" "x < 0" | "0 < x" | "x < 0" "0 < y" | "x < 0" "y < 0"
    using assms by force
  then show ?thesis
  proof cases
    case 1
    then show ?thesis using assms round_mag_nonneg[of "\<bar>y\<bar>"] by (auto simp: rnd_def Let_def)
  next
    case 2
    then show ?thesis using round_mag_nonneg[of "\<bar>x\<bar>"] by (auto simp: rnd_def Let_def)
  next
    case 3
    then have "round_mag x \<le> round_mag y" using assms by (rule round_mag_mono)
    then show ?thesis using 3 assms by (auto simp: rnd_def Let_def)
  next
    case 4
    then show ?thesis using round_mag_nonneg[of "\<bar>x\<bar>"] round_mag_nonneg[of "\<bar>y\<bar>"]
      by (auto simp: rnd_def Let_def)
  next
    case 5
    then have "round_mag (- y) \<le> round_mag (- x)" using assms by (intro round_mag_mono) simp_all
    then show ?thesis using 5 by (auto simp: rnd_def Let_def)
  qed
qed

section \<open>The loops of the tiler\<close>

lemma fold_snoc_map: "fold (\<lambda>j acc. acc @ [g j]) js acc = acc @ map g js"
  by (induction js arbitrary: acc) simp_all

lemma fold_append_concat: "fold (\<lambda>i acc. acc @ h i) rows acc = acc @ concat (map h rows)"
  by (induction rows arbitrary: acc) simp_all

lemma nested_loops:
  "fold (\<lambda>i acc. fold (\<lambda>j acc. acc @ [g i j]) js acc) rows [] =
   concat (map (\<lambda>i. map (g i) js) rows)"
  by (simp add: fold_snoc_map fold_append_concat)

lemma length_grid: "length (concat (map (\<lambda>i. map (g i) js) rows)) = length rows * length js"
  by (induction rows) simp_all

lemma nth_grid:
  assumes "i < length rows" "j < length js"
  shows "concat (map (\<lambda>i. map (g i) js) rows) ! (i * length js + j) = g (rows ! i) (js ! j)"
  using assms
proof (induction rows arbitrary: i)
  case Nil
  then show ?case by simp
next
  case (Cons r rows)
  show ?case
  proof (cases i)
    case 0
    then show ?thesis using Cons.prems by (simp add: nth_append)
  next
    case (Suc k)
    then have "k < length rows" using Cons.prems by simp
    then have "concat (map (\<lambda>i. map (g i) js) rows) ! (k * length js + j) = g (rows ! k) (js ! j)"
      using Cons.prems(2) by (rule Cons.IH)
    then show ?thesis using Suc by (simp add: nth_append add.assoc)
  qed
qed

lemma length_py_range: "length (py_range n) = nat n"
  by (simp add: py_range_def)

lemma nth_py_range: "i < nat n \<Longrightarrow> py_range n ! i = int i"
  by (simp add: py_range_def)

lemma divide_area_to_bboxes_Inr:
  assumes "divide_area_to_bboxes min_lat max_lat min_lon max_lon step = Inr bboxes"
  obtains lat_steps lon_steps where
    "count_steps max_lat min_lat step = Inr lat_steps"
    "count_steps max_lon min_lon step = Inr lon_steps"
    "bboxes = concat (map (\<lambda>i. map (\<lambda>j.
        (fadd min_lat (fmul (float_of_int i) step),
         fadd min_lon (fmul (float_of_int j) step),
         py_min (fadd min_lat (fmul (float_of_int (i + 1)) step)) max_lat,
         py_min (fadd min_lon (fmul (float_of_int (j + 1)) step)) max_lon))
        (py_range lon_steps)) (py_range lat_steps))"
  using assms unfolding divide_area_to_bboxes_def nested_loops
  by (auto split: sum.splits)

lemma divide_area_to_bboxes_returns:
  assumes "count_steps max_lat min_lat step = Inr lat_steps"
    and "count_steps max_lon min_lon step = Inr lon_steps"
  shows "divide_area_to_bboxes min_lat max_lat min_lon max_lon step =
     Inr (concat (map (\<lambda>i. map (\<lambda>j.
        (fadd min_lat (fmul (float_of_int i) step),
         fadd min_lon (fmul (float_of_int j) step),
         py_min (fadd min_lat (fmul (float_of_int (i + 1)) step)) max_lat,
         py_min (fadd min_lon (fmul (float_of_int (j + 1)) step)) max_lon))
        (py_range lon_steps)) (py_range lat_steps)))"
  unfolding divide_area_to_bboxes_def nested_loops using assms by simp

lemma fsub_ordered:
  assumes "fle lo hi"
  shows "fsub hi lo = PInf \<or> fsub hi lo = NaN \<or> (\<exists>d. fsub hi lo = Fin d \<and> 0 \<le> d)"
proof (cases lo)
  case (Fin l)
  show ?thesis
  proof (cases hi)
    case (Fin h)
    have "0 \<le> h - l" using assms \<open>lo = Fin l\<close> Fin by simp
    from rnd_nonneg[OF this] show ?thesis using \<open>lo = Fin l\<close> Fin by (auto simp: fsub_def)
  qed (use assms Fin in \<open>simp_all add: fsub_def\<close>)
qed (use assms in \<open>cases hi; simp add: fsub_def\<close>)+

lemma fdiv_positive_step:
  assumes "0 \<le> d" "flt (Fin 0) step"
  shows "fdiv (Fin d) step = Inr PInf \<or> (\<exists>q. fdiv (Fin d) step = Inr (Fin q) \<and> 0 \<le> q)"
proof (cases step)
  case (Fin s)
  then have "0 \<le> d / s" using assms by simp
  from rnd_nonneg[OF this] show ?thesis using Fin assms by auto
qed (use assms in simp_all)

lemma count_steps_floor:
  assumes "fle lo hi" "flt (Fin 0) step" "count_steps hi lo step = Inr k"
  shows "\<exists>q. fdiv (fsub hi lo) step = Inr (Fin q) \<and> 0 \<le> q \<and> k = \<lfloor>q\<rfloor> + 1"
proof -
  from fsub_ordered[OF assms(1)] consider "fsub hi lo = PInf" | "fsub hi lo = NaN"
    | d where "fsub hi lo = Fin d" "0 \<le> d" by blast
  then show ?thesis
  proof cases
    case 1
    then show ?thesis using assms(2,3) by (cases step) (auto simp: count_steps_def inf_of_sign_def split: if_splits)
  next
    case 2
    then show ?thesis using assms(2,3) by (cases step) (auto simp: count_steps_def split: if_splits)
  next
    case 3
    from fdiv_positive_step[OF 3(2) assms(2)] show ?thesis
      using assms(3) 3(1) by (auto simp: count_steps_def)
  qed
qed

text \<open>Where a tile sits in the returned list, and what it is.\<close>

lemma grid_position:
  assumes "divide_area_to_bboxes min_lat max_lat min_lon max_lon step = Inr bboxes"
    and "count_steps max_lat min_lat step = Inr row_count"
    and "count_steps max_lon min_lon step = Inr col_count"
    and "0 \<le> i" "i < row_count" "0 \<le> j" "j < col_count"
  shows "nat (i * col_count + j) < length bboxes \<and>
         bboxes ! nat (i * col_count + j) =
           (fadd min_lat (fmul (float_of_int i) step),
            fadd min_lon (fmul (float_of_int j) step),
            py_min (fadd min_lat (fmul (float_of_int (i + 1)) step)) max_lat,
            py_min (fadd min_lon (fmul (float_of_int (j + 1)) step)) max_lon)"
proof -
  from assms(1) obtain r c where rc: "count_steps max_lat min_lat step = Inr r"
      "count_steps max_lon min_lon step = Inr c"
    and bb: "bboxes = concat (map (\<lambda>i. map (\<lambda>j.
        (fadd min_lat (fmul (float_of_int i) step),
         fadd min_lon (fmul (float_of_int j) step),
         py_min (fadd min_lat (fmul (float_of_int (i + 1)) step)) max_lat,
         py_min (fadd min_lon (fmul (float_of_int (j + 1)) step)) max_lon))
        (py_range c)) (py_range r))"
    by (rule divide_area_to_bboxes_Inr)
  have r: "r = row_count" and c: "c = col_count" using rc assms(2,3) by simp_all
  have i: "nat i < length (py_range r)" and j: "nat j < length (py_range c)"
    using assms(4-7) by (simp_all add: length_py_range r c)
  have idx: "nat (i * col_count + j) = nat i * length (py_range c) + nat j"
    using assms(4-7) by (simp add: length_py_range c nat_add_distrib nat_mult_distrib)
  have "nat i * nat col_count + nat j < nat row_count * nat col_count"
  proof -
    have "nat i * nat col_count + nat j < nat i * nat col_count + nat col_count"
      using assms(6,7) by simp
    also have "\<dots> = Suc (nat i) * nat col_count" by simp
    also have "\<dots> \<le> nat row_count * nat col_count"
      using assms(4,5) by (intro mult_le_mono1) simp
    finally show ?thesis .
  qed
  then have len: "nat (i * col_count + j) < length bboxes"
    unfolding idx by (simp add: bb length_grid length_py_range r c)
  have "bboxes ! nat (i * col_count + j) =
          (fadd min_lat (fmul (float_of_int (py_range r ! nat i)) step),
           fadd min_lon (fmul (float_of_int (py_range c ! nat j)) step),
           py_min (fadd min_lat (fmul (float_of_int (py_range r ! nat i + 1)) step)) max_lat,
           py_min (fadd min_lon (fmul (float_of_int (py_range c ! nat j + 1)) step)) max_lon)"
    unfolding idx bb by (rule nth_grid[OF i j])
  moreover have "py_range r ! nat i = i" "py_range c ! nat j = j"
    using assms(4-7) by (simp_all add: nth_py_range r c)
  ultimately show ?thesis using len by simp
qed

section \<open>Evaluating the tiler on the unit square\<close>

lemma py_range_1: "py_range 1 = [0]"
  by code_simp

lemma py_range_2: "py_range 2 = [0, 1]"
  by code_simp

lemma py_range_3: "py_range 3 = [0, 1, 2]"
  by code_simp

lemma rnd_0: "rnd 0 = Fin 0"
  by (simp add: rnd_def)

lemma rnd_1: "rnd 1 = Fin 1"
  using rnd_cert(1)[of 0 1 4503599627370496] by simp

lemma rnd_2: "rnd 2 = Fin 2"
  using rnd_cert(1)[of 1 2 4503599627370496] by simp

lemma unit_square_steps: "count_steps (Fin 1) (Fin 0) (Fin 1) = Inr 2"
  by (simp add: count_steps_def fsub_def rnd_1)

lemma unit_square_tiles:
  "divide_area_to_bboxes (Fin 0) (Fin 1) (Fin 0) (Fin 1) (Fin 1) =
     Inr [(Fin 0, Fin 0, Fin 1, Fin 1), (Fin 0, Fin 1, Fin 1, Fin 1),
          (Fin 1, Fin 0, Fin 1, Fin 1), (Fin 1, Fin 1, Fin 1, Fin 1)]"
  by (simp add: divide_area_to_bboxes_returns[OF unit_square_steps unit_square_steps]
      py_range_2 float_of_int_def py_min_def rnd_0 rnd_1 rnd_2)

section \<open>Loop indices convert to finite floats\<close>

text \<open>
  Python raises \<^verbatim>\<open>OverflowError\<close> in \<^verbatim>\<open>i * step\<close> when the integer \<open>i\<close> is too large for a
  float, where \<open>float_of_int\<close> yields an infinity. The lemmas below show that this
  difference is never observed: every index that the loops of the tiler convert (\<open>i\<close> and
  \<open>i + 1\<close> for \<open>0 \<le> i < count\<close>) converts to a finite float, because the count is one more
  than the truncation of a finite float.
\<close>

lemma round_mag_finite_bound:
  assumes "0 < a" "round_mag a < overflow_threshold"
  shows "round_mag a \<le> 2 powi 1024 - 2 powi 971"
proof -
  define e where "e = max (ilog2 a) (- 1022)"
  consider "e \<le> 1022" | "e = 1023" | "1024 \<le> e" by linarith
  then show ?thesis
  proof cases
    case 1
    have "round_mag a \<le> 2 powi (e + 1)" using round_mag_upper[OF assms(1)] by (simp add: e_def)
    also have "\<dots> \<le> 2 powi 1023" using 1 by (intro power_int_increasing) simp_all
    also have "\<dots> \<le> 2 powi 1024 - 2 powi 971" by simp
    finally show ?thesis .
  next
    case 2
    have q: "quantum a = 2 powi 971" by (simp add: quantum_def e_def[symmetric] 2)
    define m where "m = round_half_even (a / quantum a)"
    have rm: "round_mag a = of_int m * 2 powi 971" by (simp add: round_mag_def m_def q)
    have "of_int m * (2::rat) powi 971 < of_int (2 ^ 53) * 2 powi 971"
      using assms(2) unfolding rm overflow_threshold_def by simp
    then have "(of_int m :: rat) < of_int (2 ^ 53)" by (simp only: mult_less_cancel_right) simp
    then have "m < 2 ^ 53" by (simp only: of_int_less_iff)
    then have "m \<le> 2 ^ 53 - 1" by simp
    then have "(of_int m :: rat) \<le> of_int (2 ^ 53 - 1)" by (simp only: of_int_le_iff)
    then have "of_int m * (2::rat) powi 971 \<le> of_int (2 ^ 53 - 1) * 2 powi 971"
      by (intro mult_right_mono) simp_all
    also have "\<dots> = 2 powi 1024 - 2 powi 971" by simp
    finally show ?thesis unfolding rm .
  next
    case 3
    then have il: "e = ilog2 a" "- 1022 \<le> ilog2 a" by (auto simp: e_def)
    have "(2::rat) powi 1024 \<le> 2 powi e" using 3 by (intro power_int_increasing) simp_all
    also have "\<dots> \<le> round_mag a"
      unfolding il(1) using ilog2_bounds[OF assms(1)] il(2) by (rule round_mag_binade(1))
    finally show ?thesis using assms(2) by (simp add: overflow_threshold_def)
  qed
qed

lemma rnd_finite_bound:
  assumes "rnd x = Fin v"
  shows "v \<le> 2 powi 1024 - 2 powi 971"
proof (cases "0 < x")
  case True
  then have "round_mag x < overflow_threshold" "v = round_mag x"
    using assms by (auto simp: rnd_def Let_def split: if_splits)
  then show ?thesis using round_mag_finite_bound[OF True] by simp
next
  case False
  have "v \<le> 0"
  proof (cases "x = 0")
    case True
    then show ?thesis using assms by (simp add: rnd_def)
  next
    case False
    then have "v = - round_mag \<bar>x\<bar>" using assms \<open>\<not> 0 < x\<close>
      by (auto simp: rnd_def Let_def split: if_splits)
    then show ?thesis using round_mag_nonneg[of "\<bar>x\<bar>"] by simp
  qed
  also have "(0::rat) \<le> 2 powi 1024 - 2 powi 971" by simp
  finally show ?thesis .
qed

lemma fdiv_finite_bound:
  assumes "fdiv u v = Inr (Fin q)"
  shows "q \<le> 2 powi 1024 - 2 powi 971"
proof (cases v)
  case (Fin y)
  show ?thesis
  proof (cases u)
    case (Fin x)
    then have "rnd (x / y) = Fin q" using assms \<open>v = Fin y\<close> by (simp split: if_splits)
    then show ?thesis by (rule rnd_finite_bound)
  qed (use assms Fin in \<open>auto simp: inf_of_sign_def split: if_splits\<close>)
qed (use assms in \<open>cases u; simp\<close>)+

lemma rnd_top: "rnd (2 powi 1024 - 2 powi 971 + 1) = Fin (2 powi 1024 - 2 powi 971)"
proof -
  have c: "round_mag (2 powi 1024 - 2 powi 971 + 1) = of_int (2 ^ 53 - 1) * 2 powi (1023 - 52)"
    by (rule round_mag_cert) simp_all
  have v: "of_int (2 ^ 53 - 1) * (2::rat) powi (1023 - 52) = 2 powi 1024 - 2 powi 971" by simp
  have p: "(0::rat) < 2 powi 1024 - 2 powi 971 + 1" by simp
  have n: "\<not> overflow_threshold \<le> 2 powi 1024 - 2 powi 971"
    by (simp add: overflow_threshold_def)
  have a: "\<bar>2 powi 1024 - 2 powi 971 + 1 :: rat\<bar> = 2 powi 1024 - 2 powi 971 + 1" by simp
  show ?thesis unfolding rnd_def a c v Let_def using p n by simp
qed

lemma loop_index_converts:
  assumes "count_steps hi lo step = Inr k" "0 \<le> i" "i \<le> k"
  shows "\<exists>v. float_of_int i = Fin v"
proof -
  from assms(1) obtain q where q: "fdiv (fsub hi lo) step = Inr (Fin q)"
    and k: "k = (if 0 \<le> q then \<lfloor>q\<rfloor> else \<lceil>q\<rceil>) + 1"
    unfolding count_steps_def
    by (cases "fdiv (fsub hi lo) step"; cases "projr (fdiv (fsub hi lo) step)") auto
  have qb: "q \<le> 2 powi 1024 - 2 powi 971" using q by (rule fdiv_finite_bound)
  have "(of_int k :: rat) \<le> 2 powi 1024 - 2 powi 971 + 1"
  proof (cases "0 \<le> q")
    case True
    then have "of_int k = of_int \<lfloor>q\<rfloor> + (1::rat)" using k by simp
    also have "\<dots> \<le> q + 1" by simp
    finally show ?thesis using qb by simp
  next
    case False
    then have "\<lceil>q\<rceil> \<le> 0" by (simp add: ceiling_le_iff)
    then have "k \<le> 1" using k False by simp
    then have "(of_int k :: rat) \<le> 1" by (simp only: of_int_le_1_iff)
    also have "(1::rat) \<le> 2 powi 1024 - 2 powi 971 + 1" by simp
    finally show ?thesis .
  qed
  then have "(of_int i :: rat) \<le> 2 powi 1024 - 2 powi 971 + 1"
    using assms(3) by (meson of_int_le_iff order_trans)
  then have "fle (rnd (of_int i)) (rnd (2 powi 1024 - 2 powi 971 + 1))" by (rule rnd_mono)
  then have le: "fle (float_of_int i) (Fin (2 powi 1024 - 2 powi 971))"
    unfolding rnd_top float_of_int_def .
  have "(0::rat) \<le> of_int i" using assms(2) by simp
  from rnd_nonneg[OF this] show ?thesis using le by (auto simp: float_of_int_def)
qed

section \<open>Grid positions and the number of tiles\<close>

text \<open>A quotient at or beyond the overflow threshold rounds to an infinity, on which
  \<^verbatim>\<open>int\<close> raises.\<close>

lemma rnd_overflow:
  assumes "overflow_threshold \<le> x"
  shows "rnd x = PInf"
proof -
  have t: "(0::rat) < 2 powi 1024" by simp
  have xpos: "0 < x" using assms t by (simp only: overflow_threshold_def)
  have e: "1024 \<le> ilog2 x"
  proof (rule ccontr)
    assume "\<not> 1024 \<le> ilog2 x"
    then have "ilog2 x + 1 \<le> 1024" by simp
    then have "(2::rat) powi (ilog2 x + 1) \<le> 2 powi 1024"
      by (intro power_int_increasing) simp_all
    with ilog2_bounds(2)[OF xpos] have "x < 2 powi 1024" by simp
    with assms show False by (simp only: overflow_threshold_def)
  qed
  have "(2::rat) powi 1024 \<le> 2 powi (ilog2 x)" using e by (intro power_int_increasing) simp_all
  also have "\<dots> \<le> round_mag x"
    using ilog2_bounds[OF xpos] e by (intro round_mag_binade(1)[of "ilog2 x"]) simp_all
  finally have "overflow_threshold \<le> round_mag \<bar>x\<bar>"
    using xpos by (simp only: overflow_threshold_def abs_of_pos)
  then show ?thesis using xpos by (simp add: rnd_def Let_def)
qed

text \<open>When the bounds are ordered, the step is positive and the float quotient is finite,
  the count is its floor plus one.\<close>

lemma count_steps_finite:
  assumes "fle lo hi" "flt (Fin 0) step" "fdiv (fsub hi lo) step = Inr (Fin q)"
  shows "0 \<le> q \<and> count_steps hi lo step = Inr (\<lfloor>q\<rfloor> + 1)"
proof -
  from fsub_ordered[OF assms(1)] consider "fsub hi lo = PInf" | "fsub hi lo = NaN"
    | d where "fsub hi lo = Fin d" "0 \<le> d" by blast
  then show ?thesis
  proof cases
    case 1
    then show ?thesis using assms(2,3)
      by (cases step) (auto simp: inf_of_sign_def split: if_splits)
  next
    case 2
    then show ?thesis using assms(2,3) by (cases step) (auto split: if_splits)
  next
    case 3
    from fdiv_positive_step[OF 3(2) assms(2)] have "0 \<le> q" using assms(3) 3(1) by auto
    then show ?thesis using assms(3) by (simp add: count_steps_def)
  qed
qed

lemma tiny_step_quotient: "fdiv (fsub (Fin 1) (Fin 0)) (Fin (2 powi (- 1074))) = Inr PInf"
proof -
  have "(1::rat) / 2 powi (- 1074) = 2 powi 1074" by (simp add: power_int_minus field_simps)
  moreover have "(2::rat) powi 1024 \<le> 2 powi 1074" by (intro power_int_increasing) simp_all
  ultimately have "overflow_threshold \<le> 1 / 2 powi (- 1074)"
    by (simp only: overflow_threshold_def)
  then have "rnd (1 / 2 powi (- 1074)) = PInf" by (rule rnd_overflow)
  then show ?thesis by (simp add: fsub_def rnd_1 del: power_int_numeral)
qed

lemma tiny_step_count:
  "count_steps (Fin 1) (Fin 0) (Fin (2 powi (- 1074))) = Inl OverflowError"
  unfolding count_steps_def tiny_step_quotient by simp

lemma rnd_4: "rnd 4 = Fin 4"
  using rnd_cert(1)[of 2 4 4503599627370496] by simp

lemma rnd_top_binade: "rnd (2 powi 1022) = Fin (2 powi 1022)"
  using rnd_cert(1)[of 1022 "2 powi 1022" 4503599627370496]
  by (simp add: power_int_diff)

lemma wide_range_rows: "count_steps (Fin 1) (Fin 0) (Fin (1 / 4)) = Inr 5"
  by (simp add: count_steps_def fsub_def rnd_1 rnd_4)

lemma wide_range_quotient: "fdiv (fsub (Fin (2 powi 1022)) (Fin 0)) (Fin (1 / 4)) = Inr PInf"
proof -
  have "(2::rat) powi 1022 / (1 / 4) = 2 powi 1022 * 2 powi 2" by simp
  also have "\<dots> = 2 powi 1024" by (subst power_int_add[symmetric]) simp_all
  finally have "overflow_threshold \<le> 2 powi 1022 / (1 / 4)"
    by (simp only: overflow_threshold_def)
  then have "rnd (2 powi 1022 / (1 / 4)) = PInf" by (rule rnd_overflow)
  then show ?thesis by (simp add: fsub_def rnd_top_binade del: power_int_numeral)
qed

lemma wide_range_columns:
  "count_steps (Fin (2 powi 1022)) (Fin 0) (Fin (1 / 4)) = Inl OverflowError"
  unfolding count_steps_def wide_range_quotient by simp

text \<open>
  C1, as stated, fails: ordered bounds and a positive step do not make the function return.
  On \<open>(min_lat, max_lat, min_lon, max_lon) = (0, 1, 0, 1)\<close> with the smallest positive float
  as the step, the quotient \<open>(max_lat - min_lat) / step\<close> overflows to an infinity and
  \<^verbatim>\<open>int\<close> raises \<^verbatim>\<open>OverflowError\<close>: there is no tile at any grid position.
\<close>

theorem tiny_step_raises:
  "fle (Fin 0) (Fin 1) \<and> flt (Fin 0) (Fin (2 powi (- 1074))) \<and>
   divide_area_to_bboxes (Fin 0) (Fin 1) (Fin 0) (Fin 1) (Fin (2 powi (- 1074))) =
     Inl OverflowError"
proof (intro conjI)
  show "divide_area_to_bboxes (Fin 0) (Fin 1) (Fin 0) (Fin 1) (Fin (2 powi (- 1074))) =
          Inl OverflowError"
    unfolding divide_area_to_bboxes_def tiny_step_count by simp
qed simp_all

text \<open>
  C1, as the code has it. For \<open>min_lat \<le> max_lat\<close>, \<open>min_lon \<le> max_lon\<close> and \<open>step > 0\<close>, when
  the two float quotients \<open>(max_lat - min_lat) / step\<close> and \<open>(max_lon - min_lon) / step\<close> are
  finite, the function returns a list; the row count is \<open>\<lfloor>q_lat\<rfloor> + 1\<close> and the column count
  is \<open>\<lfloor>q_lon\<rfloor> + 1\<close>; and for every row \<open>i\<close> and column \<open>j\<close> within these counts the tile
  \<open>(i, j)\<close> sits at index \<open>i * col_count + j\<close> of the list (row-major order: all columns of
  row 0, then row 1, and so on) and is
  \<open>(min_lat + i*step, min_lon + j*step, min(min_lat + (i+1)*step, max_lat),
  min(min_lon + (j+1)*step, max_lon))\<close>, every operation being the float one.
\<close>

theorem tile_at_grid_position:
  assumes "fle min_lat max_lat" "fle min_lon max_lon" "flt (Fin 0) step"
    and "fdiv (fsub max_lat min_lat) step = Inr (Fin q_lat)"
    and "fdiv (fsub max_lon min_lon) step = Inr (Fin q_lon)"
    and "0 \<le> i" "i < \<lfloor>q_lat\<rfloor> + 1" "0 \<le> j" "j < \<lfloor>q_lon\<rfloor> + 1"
  shows "\<exists>bboxes. divide_area_to_bboxes min_lat max_lat min_lon max_lon step = Inr bboxes \<and>
           nat (i * (\<lfloor>q_lon\<rfloor> + 1) + j) < length bboxes \<and>
           bboxes ! nat (i * (\<lfloor>q_lon\<rfloor> + 1) + j) =
             (fadd min_lat (fmul (float_of_int i) step),
              fadd min_lon (fmul (float_of_int j) step),
              py_min (fadd min_lat (fmul (float_of_int (i + 1)) step)) max_lat,
              py_min (fadd min_lon (fmul (float_of_int (j + 1)) step)) max_lon)"
proof -
  have r: "count_steps max_lat min_lat step = Inr (\<lfloor>q_lat\<rfloor> + 1)"
    using count_steps_finite[OF assms(1,3,4)] by simp
  have c: "count_steps max_lon min_lon step = Inr (\<lfloor>q_lon\<rfloor> + 1)"
    using count_steps_finite[OF assms(2,3,5)] by simp
  note d = divide_area_to_bboxes_returns[OF r c]
  from grid_position[OF d r c assms(6-9)] d show ?thesis by blast
qed

theorem tile_at_grid_position_witness:
  "fle (Fin 0) (Fin 1) \<and> flt (Fin 0) (Fin 1) \<and>
   fdiv (fsub (Fin 1) (Fin 0)) (Fin 1) = Inr (Fin 1) \<and>
   (0::int) \<le> 1 \<and> (1::int) < \<lfloor>1::rat\<rfloor> + 1 \<and> (0::int) \<le> 0 \<and> (0::int) < \<lfloor>1::rat\<rfloor> + 1 \<and>
   (\<exists>bboxes. divide_area_to_bboxes (Fin 0) (Fin 1) (Fin 0) (Fin 1) (Fin 1) = Inr bboxes \<and>
      nat (1 * (\<lfloor>1::rat\<rfloor> + 1) + 0) < length bboxes \<and>
      bboxes ! nat (1 * (\<lfloor>1::rat\<rfloor> + 1) + 0) =
        (fadd (Fin 0) (fmul (float_of_int 1) (Fin 1)),
         fadd (Fin 0) (fmul (float_of_int 0) (Fin 1)),
         py_min (fadd (Fin 0) (fmul (float_of_int (1 + 1)) (Fin 1))) (Fin 1),
         py_min (fadd (Fin 0) (fmul (float_of_int (0 + 1)) (Fin 1))) (Fin 1)))"
proof -
  have le: "fle (Fin 0) (Fin 1)" and lt: "flt (Fin 0) (Fin 1)" by simp_all
  have q: "fdiv (fsub (Fin 1) (Fin 0)) (Fin 1) = Inr (Fin 1)" by (simp add: fsub_def rnd_1)
  have h: "(0::int) \<le> 1" "(1::int) < \<lfloor>1::rat\<rfloor> + 1" "(0::int) \<le> 0" "(0::int) < \<lfloor>1::rat\<rfloor> + 1"
    by simp_all
  note t = tile_at_grid_position[OF le le lt q q h]
  show ?thesis by (intro conjI le lt q h t)
qed

text \<open>
  C2, as stated, fails: ordered bounds and a positive step do not make the function return
  a list that could be counted. On \<open>(min_lat, max_lat, min_lon, max_lon) = (0, 1, 0, 2^1022)\<close>
  with the step \<open>0.25\<close> the rows are counted (five of them), but the quotient
  \<open>(max_lon - min_lon) / step\<close> overflows to an infinity and \<^verbatim>\<open>int\<close> raises
  \<^verbatim>\<open>OverflowError\<close>.
\<close>

theorem wide_range_raises:
  "fle (Fin 0) (Fin 1) \<and> fle (Fin 0) (Fin (2 powi 1022)) \<and> flt (Fin 0) (Fin (1 / 4)) \<and>
   divide_area_to_bboxes (Fin 0) (Fin 1) (Fin 0) (Fin (2 powi 1022)) (Fin (1 / 4)) =
     Inl OverflowError"
proof (intro conjI)
  show "divide_area_to_bboxes (Fin 0) (Fin 1) (Fin 0) (Fin (2 powi 1022)) (Fin (1 / 4)) =
          Inl OverflowError"
    unfolding divide_area_to_bboxes_def wide_range_rows wide_range_columns by simp
qed simp_all

text \<open>
  C2, as the code has it. For \<open>min_lat \<le> max_lat\<close>, \<open>min_lon \<le> max_lon\<close> and \<open>step > 0\<close>, when
  the two float quotients \<open>(max_lat - min_lat) / step\<close> and \<open>(max_lon - min_lon) / step\<close> are
  finite, the function returns a list, and the number of its tiles is
  \<open>(floor((max_lat - min_lat) / step) + 1) * (floor((max_lon - min_lon) / step) + 1)\<close>, the
  quotients being the ones float arithmetic gives. Nothing is subtracted when a range is an
  exact multiple of the step.
\<close>

theorem tile_count:
  assumes "fle min_lat max_lat" "fle min_lon max_lon" "flt (Fin 0) step"
    and "fdiv (fsub max_lat min_lat) step = Inr (Fin q_lat)"
    and "fdiv (fsub max_lon min_lon) step = Inr (Fin q_lon)"
  shows "\<exists>bboxes. divide_area_to_bboxes min_lat max_lat min_lon max_lon step = Inr bboxes \<and>
           int (length bboxes) = (\<lfloor>q_lat\<rfloor> + 1) * (\<lfloor>q_lon\<rfloor> + 1)"
proof -
  have r: "0 \<le> q_lat" "count_steps max_lat min_lat step = Inr (\<lfloor>q_lat\<rfloor> + 1)"
    using count_steps_finite[OF assms(1,3,4)] by simp_all
  have c: "0 \<le> q_lon" "count_steps max_lon min_lon step = Inr (\<lfloor>q_lon\<rfloor> + 1)"
    using count_steps_finite[OF assms(2,3,5)] by simp_all
  have "0 \<le> \<lfloor>q_lat\<rfloor> + 1" "0 \<le> \<lfloor>q_lon\<rfloor> + 1" using r(1) c(1) by simp_all
  then show ?thesis
    unfolding divide_area_to_bboxes_returns[OF r(2) c(2)]
    by (simp add: length_grid length_py_range)
qed

theorem tile_count_witness:
  "fle (Fin 0) (Fin 1) \<and> flt (Fin 0) (Fin 1) \<and>
   fdiv (fsub (Fin 1) (Fin 0)) (Fin 1) = Inr (Fin 1) \<and>
   (\<exists>bboxes. divide_area_to_bboxes (Fin 0) (Fin 1) (Fin 0) (Fin 1) (Fin 1) = Inr bboxes \<and>
      int (length bboxes) = (\<lfloor>1::rat\<rfloor> + 1) * (\<lfloor>1::rat\<rfloor> + 1))"
proof -
  have le: "fle (Fin 0) (Fin 1)" and lt: "flt (Fin 0) (Fin 1)" by simp_all
  have q: "fdiv (fsub (Fin 1) (Fin 0)) (Fin 1) = Inr (Fin 1)" by (simp add: fsub_def rnd_1)
  note t = tile_count[OF le le lt q q]
  show ?thesis by (intro conjI le lt q t)
qed

section \<open>Evaluating the tiler on the scenario of the specification\<close>

lemma scenario_1: "float_lit (45 / 2) = Fin (45 / 2)"
  using rnd_cert(1)[of "4" "45 / 2" "6333186975989760"] by (simp add: float_lit_def)

lemma scenario_2: "float_lit (227 / 10) = Fin (6389481971331891 / 281474976710656)"
  using rnd_cert(1)[of "4" "227 / 10" "6389481971331891"] by (simp add: float_lit_def)

lemma scenario_3: "float_lit (225 / 2) = Fin (225 / 2)"
  using rnd_cert(1)[of "6" "225 / 2" "7916483719987200"] by (simp add: float_lit_def)

lemma scenario_4: "float_lit (1127 / 10) = Fin (7930557468822733 / 70368744177664)"
  using rnd_cert(1)[of "6" "1127 / 10" "7930557468822733"] by (simp add: float_lit_def)

lemma scenario_5: "float_lit (1 / 10) = Fin (3602879701896397 / 36028797018963968)"
  using rnd_cert(1)[of "- 4" "1 / 10" "7205759403792794"] by (simp add: float_lit_def)

lemma scenario_6: "float_lit (113 / 5) = Fin (3180667236830413 / 140737488355328)"
  using rnd_cert(1)[of "4" "113 / 5" "6361334473660826"] by (simp add: float_lit_def)

lemma scenario_7: "float_lit (563 / 5) = Fin (3961760297202483 / 35184372088832)"
  using rnd_cert(1)[of "6" "563 / 5" "7923520594404966"] by (simp add: float_lit_def)

lemma scenario_8: "fsub (Fin (6389481971331891 / 281474976710656)) (Fin (45 / 2)) = Fin (56294995342131 / 281474976710656)"
  using rnd_cert(1)[of "- 3" "6389481971331891 / 281474976710656 - 45 / 2" "7205759403792768"] by (simp add: fsub_def)

lemma scenario_9: "fdiv (Fin (56294995342131 / 281474976710656)) (Fin (3602879701896397 / 36028797018963968)) = Inr (Fin (281474976710655 / 140737488355328))"
  using rnd_cert(1)[of "0" "(56294995342131 / 281474976710656) / (3602879701896397 / 36028797018963968)" "9007199254740960"] by simp

lemma scenario_10: "py_int (Fin (281474976710655 / 140737488355328)) = Inr 1"
  using floor_unique[of "1" "281474976710655 / 140737488355328 :: rat"] by simp

lemma scenario_11: "fsub (Fin (7930557468822733 / 70368744177664)) (Fin (225 / 2)) = Fin (14073748835533 / 70368744177664)"
  using rnd_cert(1)[of "- 3" "7930557468822733 / 70368744177664 - 225 / 2" "7205759403792896"] by (simp add: fsub_def)

lemma scenario_12: "fdiv (Fin (14073748835533 / 70368744177664)) (Fin (3602879701896397 / 36028797018963968)) = Inr (Fin (70368744177665 / 35184372088832))"
  using rnd_cert(1)[of "1" "(14073748835533 / 70368744177664) / (3602879701896397 / 36028797018963968)" "4503599627370560"] by simp

lemma scenario_13: "py_int (Fin (70368744177665 / 35184372088832)) = Inr 2"
  using floor_unique[of "2" "70368744177665 / 35184372088832 :: rat"] by simp

lemma scenario_14: "float_of_int 0 = Fin 0"
  by (simp add: float_of_int_def rnd_def)

lemma scenario_15: "fmul (Fin 0) (Fin (3602879701896397 / 36028797018963968)) = Fin 0"
  by (simp add: rnd_def)

lemma scenario_16: "fadd (Fin (45 / 2)) (Fin 0) = Fin (45 / 2)"
  using rnd_cert(1)[of "4" "45 / 2 + 0" "6333186975989760"] by simp

lemma scenario_17: "fadd (Fin (225 / 2)) (Fin 0) = Fin (225 / 2)"
  using rnd_cert(1)[of "6" "225 / 2 + 0" "7916483719987200"] by simp

lemma scenario_18: "float_of_int 1 = Fin 1"
  using rnd_cert(1)[of "0" "1" "4503599627370496"] by (simp add: float_of_int_def)

lemma scenario_19: "fmul (Fin 1) (Fin (3602879701896397 / 36028797018963968)) = Fin (3602879701896397 / 36028797018963968)"
  using rnd_cert(1)[of "- 4" "1 * 3602879701896397 / 36028797018963968" "7205759403792794"] by simp

lemma scenario_20: "fadd (Fin (45 / 2)) (Fin (3602879701896397 / 36028797018963968)) = Fin (3180667236830413 / 140737488355328)"
  using rnd_cert(1)[of "4" "45 / 2 + 3602879701896397 / 36028797018963968" "6361334473660826"] by simp

lemma scenario_21: "fadd (Fin (225 / 2)) (Fin (3602879701896397 / 36028797018963968)) = Fin (3961760297202483 / 35184372088832)"
  using rnd_cert(1)[of "6" "225 / 2 + 3602879701896397 / 36028797018963968" "7923520594404966"] by simp

lemma scenario_22: "float_of_int 2 = Fin 2"
  using rnd_cert(1)[of "1" "2" "4503599627370496"] by (simp add: float_of_int_def)

lemma scenario_23: "fmul (Fin 2) (Fin (3602879701896397 / 36028797018963968)) = Fin (3602879701896397 / 18014398509481984)"
  using rnd_cert(1)[of "- 3" "2 * 3602879701896397 / 36028797018963968" "7205759403792794"] by simp

lemma scenario_24: "fadd (Fin (225 / 2)) (Fin (3602879701896397 / 18014398509481984)) = Fin (7930557468822733 / 70368744177664)"
  using rnd_cert(1)[of "6" "225 / 2 + 3602879701896397 / 18014398509481984" "7930557468822733"] by simp

lemma scenario_25: "float_of_int 3 = Fin 3"
  using rnd_cert(1)[of "1" "3" "6755399441055744"] by (simp add: float_of_int_def)

lemma scenario_26: "fmul (Fin 3) (Fin (3602879701896397 / 36028797018963968)) = Fin (1351079888211149 / 4503599627370496)"
  using rnd_cert(1)[of "- 2" "3 * 3602879701896397 / 36028797018963968" "5404319552844596"] by simp

lemma scenario_27: "fadd (Fin (225 / 2)) (Fin (1351079888211149 / 4503599627370496)) = Fin (7937594343240499 / 70368744177664)"
  using rnd_cert(1)[of "6" "225 / 2 + 1351079888211149 / 4503599627370496" "7937594343240499"] by simp

lemma scenario_28: "fadd (Fin (45 / 2)) (Fin (3602879701896397 / 18014398509481984)) = Fin (6389481971331891 / 281474976710656)"
  using rnd_cert(1)[of "4" "45 / 2 + 3602879701896397 / 18014398509481984" "6389481971331891"] by simp

lemma scenario_29: "fadd (Fin (3961760297202483 / 35184372088832)) (Fin (3602879701896397 / 36028797018963968)) = Fin (1982639367205683 / 17592186044416)"
  using rnd_cert(1)[of "6" "3961760297202483 / 35184372088832 + 3602879701896397 / 36028797018963968" "7930557468822732"] by simp

lemma scenario_30: "fadd (Fin (7930557468822733 / 70368744177664)) (Fin (3602879701896397 / 36028797018963968)) = Fin (7937594343240499 / 70368744177664)"
  using rnd_cert(1)[of "6" "7930557468822733 / 70368744177664 + 3602879701896397 / 36028797018963968" "7937594343240499"] by simp

lemmas scenario_evals = scenario_1 scenario_2 scenario_3 scenario_4 scenario_5 scenario_6 scenario_7 scenario_8 scenario_9 scenario_10 scenario_11 scenario_12 scenario_13 scenario_14 scenario_15 scenario_16 scenario_17 scenario_18 scenario_19 scenario_20 scenario_21 scenario_22 scenario_23 scenario_24 scenario_25 scenario_26 scenario_27 scenario_28 scenario_29 scenario_30

lemma scenario_lat_steps:
  "count_steps (float_lit (227 / 10)) (float_lit (45 / 2)) (float_lit (1 / 10)) = Inr 2"
  by (simp add: count_steps_def scenario_evals del: fadd.simps fmul.simps fdiv.simps py_int.simps)

lemma scenario_lon_steps:
  "count_steps (float_lit (1127 / 10)) (float_lit (225 / 2)) (float_lit (1 / 10)) = Inr 3"
  by (simp add: count_steps_def scenario_evals del: fadd.simps fmul.simps fdiv.simps py_int.simps)

lemma scenario_tiles:
  "divide_area_to_bboxes (float_lit (45 / 2)) (float_lit (227 / 10)) (float_lit (225 / 2)) (float_lit (1127 / 10)) (float_lit (1 / 10)) =
     Inr [(float_lit (45 / 2), float_lit (225 / 2), float_lit (226 / 10), float_lit (1126 / 10)),
          (float_lit (45 / 2), float_lit (1126 / 10), float_lit (226 / 10), float_lit (1127 / 10)),
          (float_lit (45 / 2), float_lit (1127 / 10), float_lit (226 / 10), float_lit (1127 / 10)),
          (float_lit (226 / 10), float_lit (225 / 2), float_lit (227 / 10), float_lit (1126 / 10)),
          (float_lit (226 / 10), float_lit (1126 / 10), float_lit (227 / 10), float_lit (1127 / 10)),
          (float_lit (226 / 10), float_lit (1127 / 10), float_lit (227 / 10), float_lit (1127 / 10))]"
  unfolding divide_area_to_bboxes_returns[OF scenario_lat_steps scenario_lon_steps]
  by (simp add: py_range_2 py_range_3 py_min_def scenario_evals del: fadd.simps fmul.simps fdiv.simps py_int.simps)

section \<open>Evaluating the tiler where rounding inverts a tile\<close>

lemma inverted_1: "float_lit (3 / 5) = Fin (5404319552844595 / 9007199254740992)"
  using rnd_cert(1)[of "- 1" "3 / 5" "5404319552844595"] by (simp add: float_lit_def)

lemma inverted_2: "float_lit (17 / 10) = Fin (7656119366529843 / 4503599627370496)"
  using rnd_cert(1)[of "0" "17 / 10" "7656119366529843"] by (simp add: float_lit_def)

lemma inverted_3: "float_lit (11 / 10) = Fin (2476979795053773 / 2251799813685248)"
  using rnd_cert(1)[of "0" "11 / 10" "4953959590107546"] by (simp add: float_lit_def)

lemma inverted_4: "fsub (Fin (7656119366529843 / 4503599627370496)) (Fin (5404319552844595 / 9007199254740992)) = Fin (2476979795053773 / 2251799813685248)"
  using rnd_cert(1)[of "0" "7656119366529843 / 4503599627370496 - 5404319552844595 / 9007199254740992" "4953959590107546"] by (simp add: fsub_def)

lemma inverted_5: "fdiv (Fin (2476979795053773 / 2251799813685248)) (Fin (2476979795053773 / 2251799813685248)) = Inr (Fin 1)"
  using rnd_cert(1)[of "0" "(2476979795053773 / 2251799813685248) / (2476979795053773 / 2251799813685248)" "4503599627370496"] by simp

lemma inverted_6: "py_int (Fin 1) = Inr 1"
  using floor_unique[of "1" "1 :: rat"] by simp

lemma inverted_7: "fsub (Fin 1) (Fin 0) = Fin 1"
  using rnd_cert(1)[of "0" "1 - 0" "4503599627370496"] by (simp add: fsub_def)

lemma inverted_8: "fdiv (Fin 1) (Fin (2476979795053773 / 2251799813685248)) = Inr (Fin (8188362958855447 / 9007199254740992))"
  using rnd_cert(1)[of "- 1" "(1) / (2476979795053773 / 2251799813685248)" "8188362958855447"] by simp

lemma inverted_9: "py_int (Fin (8188362958855447 / 9007199254740992)) = Inr 0"
  using floor_unique[of "0" "8188362958855447 / 9007199254740992 :: rat"] by simp

lemma inverted_10: "float_of_int 0 = Fin 0"
  by (simp add: float_of_int_def rnd_def)

lemma inverted_11: "fmul (Fin 0) (Fin (2476979795053773 / 2251799813685248)) = Fin 0"
  by (simp add: rnd_def)

lemma inverted_12: "fadd (Fin (5404319552844595 / 9007199254740992)) (Fin 0) = Fin (5404319552844595 / 9007199254740992)"
  using rnd_cert(1)[of "- 1" "5404319552844595 / 9007199254740992 + 0" "5404319552844595"] by simp

lemma inverted_13: "fadd (Fin 0) (Fin 0) = Fin 0"
  by (simp add: rnd_def)

lemma inverted_14: "float_of_int 1 = Fin 1"
  using rnd_cert(1)[of "0" "1" "4503599627370496"] by (simp add: float_of_int_def)

lemma inverted_15: "fmul (Fin 1) (Fin (2476979795053773 / 2251799813685248)) = Fin (2476979795053773 / 2251799813685248)"
  using rnd_cert(1)[of "0" "1 * 2476979795053773 / 2251799813685248" "4953959590107546"] by simp

lemma inverted_16: "fadd (Fin (5404319552844595 / 9007199254740992)) (Fin (2476979795053773 / 2251799813685248)) = Fin (1914029841632461 / 1125899906842624)"
  using rnd_cert(1)[of "0" "5404319552844595 / 9007199254740992 + 2476979795053773 / 2251799813685248" "7656119366529844"] by simp

lemma inverted_17: "fadd (Fin 0) (Fin (2476979795053773 / 2251799813685248)) = Fin (2476979795053773 / 2251799813685248)"
  using rnd_cert(1)[of "0" "0 + 2476979795053773 / 2251799813685248" "4953959590107546"] by simp

lemma inverted_18: "float_of_int 2 = Fin 2"
  using rnd_cert(1)[of "1" "2" "4503599627370496"] by (simp add: float_of_int_def)

lemma inverted_19: "fmul (Fin 2) (Fin (2476979795053773 / 2251799813685248)) = Fin (2476979795053773 / 1125899906842624)"
  using rnd_cert(1)[of "1" "2 * 2476979795053773 / 2251799813685248" "4953959590107546"] by simp

lemma inverted_20: "fadd (Fin (5404319552844595 / 9007199254740992)) (Fin (2476979795053773 / 1125899906842624)) = Fin (6305039478318695 / 2251799813685248)"
  using rnd_cert(1)[of "1" "5404319552844595 / 9007199254740992 + 2476979795053773 / 1125899906842624" "6305039478318695"] by simp

lemmas inverted_evals = inverted_1 inverted_2 inverted_3 inverted_4 inverted_5 inverted_6 inverted_7 inverted_8 inverted_9 inverted_10 inverted_11 inverted_12 inverted_13 inverted_14 inverted_15 inverted_16 inverted_17 inverted_18 inverted_19 inverted_20

lemma inverted_lat_steps:
  "count_steps (float_lit (17 / 10)) (float_lit (6 / 10)) (float_lit (11 / 10)) = Inr 2"
  by (simp add: count_steps_def inverted_evals del: fadd.simps fmul.simps fdiv.simps py_int.simps)

lemma inverted_lon_steps:
  "count_steps (Fin 1) (Fin 0) (float_lit (11 / 10)) = Inr 1"
  by (simp add: count_steps_def inverted_evals del: fadd.simps fmul.simps fdiv.simps py_int.simps)

lemma inverted_tiles:
  "divide_area_to_bboxes (float_lit (6 / 10)) (float_lit (17 / 10)) (Fin 0) (Fin 1) (float_lit (11 / 10)) =
     Inr [(float_lit (6 / 10), Fin 0, float_lit (17 / 10), Fin 1),
          (Fin (1914029841632461 / 1125899906842624), Fin 0, float_lit (17 / 10), Fin 1)]"
  unfolding divide_area_to_bboxes_returns[OF inverted_lat_steps inverted_lon_steps]
  by (simp add: py_range_1 py_range_2 py_min_def inverted_evals del: fadd.simps fmul.simps fdiv.simps py_int.simps)

section \<open>The scenario of the specification and an inverted tile\<close>

text \<open>
  C6. On \<open>(22.5, 22.7, 112.5, 112.7)\<close> with step \<open>0.1\<close> the tiler does not return the four
  tiles \<open>(22.5,112.5,22.6,112.6)\<close>, \<open>(22.5,112.6,22.6,112.7)\<close>, \<open>(22.6,112.5,22.7,112.6)\<close>,
  \<open>(22.6,112.6,22.7,112.7)\<close>. Each decimal stands for the float nearest to it.
\<close>

theorem scenario_not_four_tiles:
  "divide_area_to_bboxes (float_lit (45 / 2)) (float_lit (227 / 10)) (float_lit (225 / 2))
      (float_lit (1127 / 10)) (float_lit (1 / 10)) \<noteq>
     Inr [(float_lit (45 / 2), float_lit (225 / 2), float_lit (226 / 10), float_lit (1126 / 10)),
          (float_lit (45 / 2), float_lit (1126 / 10), float_lit (226 / 10), float_lit (1127 / 10)),
          (float_lit (226 / 10), float_lit (225 / 2), float_lit (227 / 10), float_lit (1126 / 10)),
          (float_lit (226 / 10), float_lit (1126 / 10), float_lit (227 / 10), float_lit (1127 / 10))]"
proof
  assume "divide_area_to_bboxes (float_lit (45 / 2)) (float_lit (227 / 10)) (float_lit (225 / 2))
      (float_lit (1127 / 10)) (float_lit (1 / 10)) =
     Inr [(float_lit (45 / 2), float_lit (225 / 2), float_lit (226 / 10), float_lit (1126 / 10)),
          (float_lit (45 / 2), float_lit (1126 / 10), float_lit (226 / 10), float_lit (1127 / 10)),
          (float_lit (226 / 10), float_lit (225 / 2), float_lit (227 / 10), float_lit (1126 / 10)),
          (float_lit (226 / 10), float_lit (1126 / 10), float_lit (227 / 10), float_lit (1127 / 10))]"
  then have "map_sum id length (divide_area_to_bboxes (float_lit (45 / 2)) (float_lit (227 / 10))
      (float_lit (225 / 2)) (float_lit (1127 / 10)) (float_lit (1 / 10))) = Inr 4"
    by simp
  then show False unfolding scenario_tiles by simp
qed

text \<open>
  C6, as the code has it. The float quotient \<open>(22.7 - 22.5) / 0.1\<close> is \<open>1.999999999999993\<close>,
  which gives two rows, and \<open>(112.7 - 112.5) / 0.1\<close> is \<open>2.0000000000000284\<close>, which gives
  three columns; the third column starts at \<open>112.7\<close> and is clipped to zero width. The
  function returns these six tiles, in this order.
\<close>

theorem scenario_six_tiles:
  "divide_area_to_bboxes (float_lit (45 / 2)) (float_lit (227 / 10)) (float_lit (225 / 2))
      (float_lit (1127 / 10)) (float_lit (1 / 10)) =
     Inr [(float_lit (45 / 2), float_lit (225 / 2), float_lit (226 / 10), float_lit (1126 / 10)),
          (float_lit (45 / 2), float_lit (1126 / 10), float_lit (226 / 10), float_lit (1127 / 10)),
          (float_lit (45 / 2), float_lit (1127 / 10), float_lit (226 / 10), float_lit (1127 / 10)),
          (float_lit (226 / 10), float_lit (225 / 2), float_lit (227 / 10), float_lit (1126 / 10)),
          (float_lit (226 / 10), float_lit (1126 / 10), float_lit (227 / 10), float_lit (1127 / 10)),
          (float_lit (226 / 10), float_lit (1127 / 10), float_lit (227 / 10), float_lit (1127 / 10))]"
  by (rule scenario_tiles)

text \<open>
  C4. The tiler clips the upper bounds of a tile to the input maxima but not its lower
  bounds, and the lower bound of the last row is computed by a rounded multiplication and
  addition. On \<open>min_lat = 0.6\<close>, \<open>max_lat = 1.7\<close>, \<open>min_lon = 0.0\<close>, \<open>max_lon = 1.0\<close>,
  \<open>step = 1.1\<close> (which satisfies \<open>min \<le> max\<close> on both axes and \<open>step > 0\<close>) the float
  quotient \<open>(1.7 - 0.6) / 1.1\<close> is exactly 1, so there are two rows, and the second row
  starts at \<open>0.6 + 1 * 1.1 = 1.7000000000000002\<close>, above its own upper bound \<open>1.7\<close>: that
  tile has \<open>min_lat > max_lat\<close>.
\<close>

theorem inverted_last_row:
  "fle (float_lit (6 / 10)) (float_lit (17 / 10)) \<and> fle (Fin 0) (Fin 1) \<and>
   flt (Fin 0) (float_lit (11 / 10)) \<and>
   divide_area_to_bboxes (float_lit (6 / 10)) (float_lit (17 / 10)) (Fin 0) (Fin 1) (float_lit (11 / 10)) =
     Inr [(float_lit (6 / 10), Fin 0, float_lit (17 / 10), Fin 1),
          (Fin (1914029841632461 / 1125899906842624), Fin 0, float_lit (17 / 10), Fin 1)] \<and>
   flt (bbox_max_lat (Fin (1914029841632461 / 1125899906842624), Fin 0, float_lit (17 / 10), Fin 1))
       (bbox_min_lat (Fin (1914029841632461 / 1125899906842624), Fin 0, float_lit (17 / 10), Fin 1))"
  by (intro conjI inverted_tiles)
     (simp_all add: bbox_max_lat_def bbox_min_lat_def inverted_evals)

section \<open>Evaluating the tiler where rounding leaves the upper edge uncovered\<close>

lemma sliver_1: "float_lit (11 / 5) = Fin (2476979795053773 / 1125899906842624)"
  using rnd_cert(1)[of "1" "11 / 5" "4953959590107546"] by (simp add: float_lit_def)

lemma sliver_2: "float_lit (53 / 5) = Fin (5967269506265907 / 562949953421312)"
  using rnd_cert(1)[of "3" "53 / 5" "5967269506265907"] by (simp add: float_lit_def)

lemma sliver_3: "float_lit (7 / 5) = Fin (3152519739159347 / 2251799813685248)"
  using rnd_cert(1)[of "0" "7 / 5" "6305039478318694"] by (simp add: float_lit_def)

lemma sliver_4: "fsub (Fin (5967269506265907 / 562949953421312)) (Fin (2476979795053773 / 1125899906842624)) = Fin (1182194902184755 / 140737488355328)"
  using rnd_cert(1)[of "3" "5967269506265907 / 562949953421312 - 2476979795053773 / 1125899906842624" "4728779608739020"] by (simp add: fsub_def)

lemma sliver_5: "fdiv (Fin (1182194902184755 / 140737488355328)) (Fin (3152519739159347 / 2251799813685248)) = Inr (Fin (6755399441055743 / 1125899906842624))"
  using rnd_cert(1)[of "2" "(1182194902184755 / 140737488355328) / (3152519739159347 / 2251799813685248)" "6755399441055743"] by simp

lemma sliver_6: "py_int (Fin (6755399441055743 / 1125899906842624)) = Inr 5"
  using floor_unique[of "5" "6755399441055743 / 1125899906842624 :: rat"] by simp

lemma sliver_7: "fsub (Fin 1) (Fin 0) = Fin 1"
  using rnd_cert(1)[of "0" "1 - 0" "4503599627370496"] by (simp add: fsub_def)

lemma sliver_8: "fdiv (Fin 1) (Fin (3152519739159347 / 2251799813685248)) = Inr (Fin (6433713753386423 / 9007199254740992))"
  using rnd_cert(1)[of "- 1" "(1) / (3152519739159347 / 2251799813685248)" "6433713753386423"] by simp

lemma sliver_9: "py_int (Fin (6433713753386423 / 9007199254740992)) = Inr 0"
  using floor_unique[of "0" "6433713753386423 / 9007199254740992 :: rat"] by simp

lemma sliver_10: "float_of_int 0 = Fin 0"
  by (simp add: float_of_int_def rnd_def)

lemma sliver_11: "fmul (Fin 0) (Fin (3152519739159347 / 2251799813685248)) = Fin 0"
  by (simp add: rnd_def)

lemma sliver_12: "fadd (Fin (2476979795053773 / 1125899906842624)) (Fin 0) = Fin (2476979795053773 / 1125899906842624)"
  using rnd_cert(1)[of "1" "2476979795053773 / 1125899906842624 + 0" "4953959590107546"] by simp

lemma sliver_13: "fadd (Fin 0) (Fin 0) = Fin 0"
  by (simp add: rnd_def)

lemma sliver_14: "float_of_int 1 = Fin 1"
  using rnd_cert(1)[of "0" "1" "4503599627370496"] by (simp add: float_of_int_def)

lemma sliver_15: "fmul (Fin 1) (Fin (3152519739159347 / 2251799813685248)) = Fin (3152519739159347 / 2251799813685248)"
  using rnd_cert(1)[of "0" "1 * 3152519739159347 / 2251799813685248" "6305039478318694"] by simp

lemma sliver_16: "fadd (Fin (2476979795053773 / 1125899906842624)) (Fin (3152519739159347 / 2251799813685248)) = Fin (8106479329266893 / 2251799813685248)"
  using rnd_cert(1)[of "1" "2476979795053773 / 1125899906842624 + 3152519739159347 / 2251799813685248" "8106479329266893"] by simp

lemma sliver_17: "fadd (Fin 0) (Fin (3152519739159347 / 2251799813685248)) = Fin (3152519739159347 / 2251799813685248)"
  using rnd_cert(1)[of "0" "0 + 3152519739159347 / 2251799813685248" "6305039478318694"] by simp

lemma sliver_18: "float_of_int 2 = Fin 2"
  using rnd_cert(1)[of "1" "2" "4503599627370496"] by (simp add: float_of_int_def)

lemma sliver_19: "fmul (Fin 2) (Fin (3152519739159347 / 2251799813685248)) = Fin (3152519739159347 / 1125899906842624)"
  using rnd_cert(1)[of "1" "2 * 3152519739159347 / 2251799813685248" "6305039478318694"] by simp

lemma sliver_20: "fadd (Fin (2476979795053773 / 1125899906842624)) (Fin (3152519739159347 / 1125899906842624)) = Fin 5"
  using rnd_cert(1)[of "2" "2476979795053773 / 1125899906842624 + 3152519739159347 / 1125899906842624" "5629499534213120"] by simp

lemma sliver_21: "float_of_int 3 = Fin 3"
  using rnd_cert(1)[of "1" "3" "6755399441055744"] by (simp add: float_of_int_def)

lemma sliver_22: "fmul (Fin 3) (Fin (3152519739159347 / 2251799813685248)) = Fin (1182194902184755 / 281474976710656)"
  using rnd_cert(1)[of "2" "3 * 3152519739159347 / 2251799813685248" "4728779608739020"] by simp

lemma sliver_23: "fadd (Fin (2476979795053773 / 1125899906842624)) (Fin (1182194902184755 / 281474976710656)) = Fin (7205759403792793 / 1125899906842624)"
  using rnd_cert(1)[of "2" "2476979795053773 / 1125899906842624 + 1182194902184755 / 281474976710656" "7205759403792793"] by simp

lemma sliver_24: "float_of_int 4 = Fin 4"
  using rnd_cert(1)[of "2" "4" "4503599627370496"] by (simp add: float_of_int_def)

lemma sliver_25: "fmul (Fin 4) (Fin (3152519739159347 / 2251799813685248)) = Fin (3152519739159347 / 562949953421312)"
  using rnd_cert(1)[of "2" "4 * 3152519739159347 / 2251799813685248" "6305039478318694"] by simp

lemma sliver_26: "fadd (Fin (2476979795053773 / 1125899906842624)) (Fin (3152519739159347 / 562949953421312)) = Fin (8782019273372467 / 1125899906842624)"
  using rnd_cert(1)[of "2" "2476979795053773 / 1125899906842624 + 3152519739159347 / 562949953421312" "8782019273372467"] by simp

lemma sliver_27: "float_of_int 5 = Fin 5"
  using rnd_cert(1)[of "2" "5" "5629499534213120"] by (simp add: float_of_int_def)

lemma sliver_28: "fmul (Fin 5) (Fin (3152519739159347 / 2251799813685248)) = Fin 7"
  using rnd_cert(1)[of "2" "5 * 3152519739159347 / 2251799813685248" "7881299347898368"] by simp

lemma sliver_29: "fadd (Fin (2476979795053773 / 1125899906842624)) (Fin 7) = Fin (2589569785738035 / 281474976710656)"
  using rnd_cert(1)[of "3" "2476979795053773 / 1125899906842624 + 7" "5179139571476070"] by simp

lemma sliver_30: "float_of_int 6 = Fin 6"
  using rnd_cert(1)[of "2" "6" "6755399441055744"] by (simp add: float_of_int_def)

lemma sliver_31: "fmul (Fin 6) (Fin (3152519739159347 / 2251799813685248)) = Fin (1182194902184755 / 140737488355328)"
  using rnd_cert(1)[of "3" "6 * 3152519739159347 / 2251799813685248" "4728779608739020"] by simp

lemma sliver_32: "fadd (Fin (2476979795053773 / 1125899906842624)) (Fin (1182194902184755 / 140737488355328)) = Fin (2983634753132953 / 281474976710656)"
  using rnd_cert(1)[of "3" "2476979795053773 / 1125899906842624 + 1182194902184755 / 140737488355328" "5967269506265906"] by simp

lemmas sliver_evals = sliver_1 sliver_2 sliver_3 sliver_4 sliver_5 sliver_6 sliver_7 sliver_8 sliver_9 sliver_10 sliver_11 sliver_12 sliver_13 sliver_14 sliver_15 sliver_16 sliver_17 sliver_18 sliver_19 sliver_20 sliver_21 sliver_22 sliver_23 sliver_24 sliver_25 sliver_26 sliver_27 sliver_28 sliver_29 sliver_30 sliver_31 sliver_32

lemma py_range_6: "py_range 6 = [0, 1, 2, 3, 4, 5]"
  by code_simp

lemma sliver_lat_steps:
  "count_steps (float_lit (106 / 10)) (float_lit (22 / 10)) (float_lit (14 / 10)) = Inr 6"
  by (simp add: count_steps_def sliver_evals del: fadd.simps fmul.simps fdiv.simps py_int.simps)

lemma sliver_lon_steps:
  "count_steps (Fin 1) (Fin 0) (float_lit (14 / 10)) = Inr 1"
  by (simp add: count_steps_def sliver_evals del: fadd.simps fmul.simps fdiv.simps py_int.simps)

lemma sliver_tiles:
  "divide_area_to_bboxes (float_lit (22 / 10)) (float_lit (106 / 10)) (Fin 0) (Fin 1) (float_lit (14 / 10)) =
     Inr [(float_lit (22 / 10), Fin 0, Fin (8106479329266893 / 2251799813685248), Fin 1),
          (Fin (8106479329266893 / 2251799813685248), Fin 0, Fin 5, Fin 1),
          (Fin 5, Fin 0, Fin (7205759403792793 / 1125899906842624), Fin 1),
          (Fin (7205759403792793 / 1125899906842624), Fin 0, Fin (8782019273372467 / 1125899906842624), Fin 1),
          (Fin (8782019273372467 / 1125899906842624), Fin 0, Fin (2589569785738035 / 281474976710656), Fin 1),
          (Fin (2589569785738035 / 281474976710656), Fin 0, Fin (2983634753132953 / 281474976710656), Fin 1)]"
  unfolding divide_area_to_bboxes_returns[OF sliver_lat_steps sliver_lon_steps]
  by (simp add: py_range_1 py_range_6 py_min_def sliver_evals del: fadd.simps fmul.simps fdiv.simps py_int.simps)

text \<open>
  C3. The tiles do not cover the input rectangle. The number of rows is the truncated float
  quotient plus one, and the upper edge of the last row is the rounded
  \<open>min_lat + rows * step\<close>, clipped to \<open>max_lat\<close> only from above. On \<open>min_lat = 2.2\<close>,
  \<open>max_lat = 10.6\<close>, \<open>min_lon = 0.0\<close>, \<open>max_lon = 1.0\<close>, \<open>step = 1.4\<close> (which satisfies
  \<open>min \<le> max\<close> on both axes and \<open>step > 0\<close>) the float quotient \<open>(10.6 - 2.2) / 1.4\<close> is
  \<open>5.999999999999999\<close>, so there are six rows, and the last row ends at
  \<open>2.2 + 6 * 1.4 = 10.599999999999998\<close>, below \<open>max_lat\<close>. The latitude \<open>max_lat\<close> of the input
  rectangle lies in no tile: not between the bounds of any tile (so it is no boundary of a
  tile either), and not in the half-open interval \<open>[tile_min, tile_min + step)\<close> of any tile,
  the last of which starts at \<open>9.2\<close> and has \<open>9.2 + 1.4 < 10.6\<close> for the floats that these
  literals denote.
\<close>

theorem upper_edge_uncovered:
  "fle (float_lit (22 / 10)) (float_lit (106 / 10)) \<and> fle (Fin 0) (Fin 1) \<and>
   flt (Fin 0) (float_lit (14 / 10)) \<and>
   divide_area_to_bboxes (float_lit (22 / 10)) (float_lit (106 / 10)) (Fin 0) (Fin 1) (float_lit (14 / 10)) =
     Inr [(float_lit (22 / 10), Fin 0, Fin (8106479329266893 / 2251799813685248), Fin 1),
          (Fin (8106479329266893 / 2251799813685248), Fin 0, Fin 5, Fin 1),
          (Fin 5, Fin 0, Fin (7205759403792793 / 1125899906842624), Fin 1),
          (Fin (7205759403792793 / 1125899906842624), Fin 0, Fin (8782019273372467 / 1125899906842624), Fin 1),
          (Fin (8782019273372467 / 1125899906842624), Fin 0, Fin (2589569785738035 / 281474976710656), Fin 1),
          (Fin (2589569785738035 / 281474976710656), Fin 0, Fin (2983634753132953 / 281474976710656), Fin 1)] \<and>
   filter (lat_in_tile (float_lit (106 / 10)))
       [(float_lit (22 / 10), Fin 0, Fin (8106479329266893 / 2251799813685248), Fin 1),
        (Fin (8106479329266893 / 2251799813685248), Fin 0, Fin 5, Fin 1),
        (Fin 5, Fin 0, Fin (7205759403792793 / 1125899906842624), Fin 1),
        (Fin (7205759403792793 / 1125899906842624), Fin 0, Fin (8782019273372467 / 1125899906842624), Fin 1),
        (Fin (8782019273372467 / 1125899906842624), Fin 0, Fin (2589569785738035 / 281474976710656), Fin 1),
        (Fin (2589569785738035 / 281474976710656), Fin 0, Fin (2983634753132953 / 281474976710656), Fin 1)] = [] \<and>
   filter (lat_in_step_interval (float_lit (14 / 10)) (float_lit (106 / 10)))
       [(float_lit (22 / 10), Fin 0, Fin (8106479329266893 / 2251799813685248), Fin 1),
        (Fin (8106479329266893 / 2251799813685248), Fin 0, Fin 5, Fin 1),
        (Fin 5, Fin 0, Fin (7205759403792793 / 1125899906842624), Fin 1),
        (Fin (7205759403792793 / 1125899906842624), Fin 0, Fin (8782019273372467 / 1125899906842624), Fin 1),
        (Fin (8782019273372467 / 1125899906842624), Fin 0, Fin (2589569785738035 / 281474976710656), Fin 1),
        (Fin (2589569785738035 / 281474976710656), Fin 0, Fin (2983634753132953 / 281474976710656), Fin 1)] = []"
  by (intro conjI sliver_tiles)
     (simp_all add: lat_in_tile_def lat_in_step_interval_def bbox_max_lat_def bbox_min_lat_def
        sliver_evals)

section \<open>Writing to files\<close>

lemma emit_simps [simp]:
  "files (emit ev w) = files w" "trace (emit ev w) = trace w @ [ev]"
  by (simp_all add: emit_def)

lemma posts_so_far_emit [simp]:
  "posts_so_far (emit ev w) = posts_so_far w + (if is_post ev then 1 else 0)"
  by (simp add: posts_so_far_def)

lemma fwrite_trace [simp]: "trace (fwrite p s w) = trace w"
  by (simp add: fwrite_def)

lemma open_truncate_simps [simp]:
  "trace (open_truncate p w) = trace w"
  "map_of (files (open_truncate p w)) q = (if q = p then Some [] else map_of (files w) q)"
  by (simp_all add: open_truncate_def update_conv')

lemma map_of_fwrite:
  "map_of (files (fwrite p s w)) q =
     (if q = p then Some (file_text w p @ s) else map_of (files w) q)"
  by (simp add: fwrite_def update_conv' file_text_def split: option.splits)

lemma file_text_fwrite:
  "file_text (fwrite p s w) q = (if q = p then file_text w p @ s else file_text w q)"
  by (simp add: file_text_def map_of_fwrite)

lemma file_text_open_truncate:
  "file_text (open_truncate p w) q = (if q = p then [] else file_text w q)"
  by (simp add: file_text_def)

lemma file_text_emit [simp]: "file_text (emit ev w) q = file_text w q"
  by (simp add: file_text_def)

lemma copy_lines_trace [simp]: "trace (copy_lines ls out w) = trace w"
  unfolding copy_lines_def by (induction ls arbitrary: w) simp_all

lemma file_text_copy_lines:
  "file_text (copy_lines ls out w) q =
     (if q = out then file_text w out @ concat (filter (\<lambda>line. \<not> is_envelope line) ls)
      else file_text w q)"
  unfolding copy_lines_def by (induction ls arbitrary: w) (simp_all add: file_text_fwrite)

text \<open>The copying loop: when every file is read to its end, it appends to the output the
  kept lines of each file in turn.\<close>

lemma copy_files_result:
  assumes "\<forall>f \<in> set fs. snd (read_lines environment (path_join d f)) = None"
  shows "\<exists>w'. copy_files environment d fs out w = (None, w') \<and> trace w' = trace w \<and>
           file_text w' out = file_text w out @
             concat (map (\<lambda>f. concat (filter (\<lambda>line. \<not> is_envelope line)
                                  (fst (read_lines environment (path_join d f))))) fs)"
  using assms
proof (induction fs arbitrary: w)
  case Nil
  then show ?case by simp
next
  case (Cons f fs)
  obtain ls where r: "read_lines environment (path_join d f) = (ls, None)"
    using Cons.prems by (cases "read_lines environment (path_join d f)") simp
  define w1 where "w1 = copy_lines ls out w"
  have "\<forall>g \<in> set fs. snd (read_lines environment (path_join d g)) = None"
    using Cons.prems by simp
  from Cons.IH[OF this, of w1] obtain w' where w':
    "copy_files environment d fs out w1 = (None, w')" "trace w' = trace w1"
    "file_text w' out = file_text w1 out @
       concat (map (\<lambda>f. concat (filter (\<lambda>line. \<not> is_envelope line)
                            (fst (read_lines environment (path_join d f))))) fs)"
    by blast
  have "copy_files environment d (f # fs) out w = (None, w')"
    using r w'(1) by (simp add: w1_def)
  moreover have "trace w' = trace w" using w'(2) by (simp add: w1_def)
  moreover have "file_text w' out = file_text w out @
       concat (map (\<lambda>f. concat (filter (\<lambda>line. \<not> is_envelope line)
                            (fst (read_lines environment (path_join d f))))) (f # fs))"
    unfolding w'(3) by (simp add: w1_def file_text_copy_lines r)
  ultimately show ?case by blast
qed

text \<open>An exception while a file is read ends the merge: the closing tag is not written.\<close>

lemma copy_files_raises:
  assumes "read_lines environment (path_join d f) = (ls, Some e)"
  shows "copy_files environment d (f # fs) out w = (Some e, copy_lines ls out w)"
  using assms by simp

section \<open>The merged document\<close>

lemma merge_osm_files_result:
  assumes "listdir environment d = Inr names" "open_ok environment out"
    and "\<forall>f \<in> set (filter (\<lambda>f. endswith f ''.osm'') names).
           snd (read_lines environment (path_join d f)) = None"
  shows "\<exists>w'. merge_osm_files environment d out w = (None, w') \<and>
           trace w' = trace w @ [PrintMerged out] \<and>
           map_of (files w') out =
             Some (xml_decl @ osm_open @
                   concat (map (\<lambda>f. concat (filter (\<lambda>line. \<not> is_envelope line)
                                        (fst (read_lines environment (path_join d f)))))
                               (filter (\<lambda>f. endswith f ''.osm'') names)) @
                   osm_close)"
proof -
  define fs where "fs = filter (\<lambda>f. endswith f ''.osm'') names"
  define w3 where "w3 = fwrite out osm_open (fwrite out xml_decl (open_truncate out w))"
  have out3: "file_text w3 out = xml_decl @ osm_open"
    by (simp add: w3_def file_text_fwrite file_text_open_truncate)
  have rd: "\<forall>f \<in> set fs. snd (read_lines environment (path_join d f)) = None"
    using assms(3) by (simp add: fs_def)
  from copy_files_result[OF rd, of out w3] obtain w4 where w4:
    "copy_files environment d fs out w3 = (None, w4)" "trace w4 = trace w3"
    "file_text w4 out = file_text w3 out @
       concat (map (\<lambda>f. concat (filter (\<lambda>line. \<not> is_envelope line)
                            (fst (read_lines environment (path_join d f))))) fs)"
    by blast
  have "merge_osm_files environment d out w =
          (None, emit (PrintMerged out) (fwrite out osm_close w4))"
    using assms(1,2) w4(1) by (simp add: merge_osm_files_def Let_def fs_def w3_def)
  moreover have "trace (emit (PrintMerged out) (fwrite out osm_close w4)) =
      trace w @ [PrintMerged out]"
    using w4(2) by (simp add: w3_def)
  moreover have "map_of (files (emit (PrintMerged out) (fwrite out osm_close w4))) out =
      Some (xml_decl @ osm_open @
            concat (map (\<lambda>f. concat (filter (\<lambda>line. \<not> is_envelope line)
                                 (fst (read_lines environment (path_join d f))))) fs) @
            osm_close)"
    by (simp add: map_of_fwrite w4(3) out3)
  ultimately show ?thesis unfolding fs_def by blast
qed

text \<open>The merger raises what the environment raises: when the directory cannot be listed,
  and when the output cannot be opened (it is a directory, say). Nothing is written then.\<close>

lemma merge_osm_files_unlisted:
  assumes "listdir environment d = Inl e"
  shows "merge_osm_files environment d out w = (Some e, w)"
  using assms by (simp add: merge_osm_files_def)

lemma merge_osm_files_unopened:
  assumes "listdir environment d = Inr names" "\<not> open_ok environment out"
  shows "merge_osm_files environment d out w = (Some (OSError out), w)"
  using assms by (simp add: merge_osm_files_def)

text \<open>
  C5. When the input directory can be listed, the output file can be opened and every
  listed entry whose name ends in \<^verbatim>\<open>.osm\<close> is read to its end without an exception,
  \<open>merge_osm_files\<close> returns normally and the output file holds exactly: the XML declaration
  line, the root open tag line, then for each listed name that ends in \<^verbatim>\<open>.osm\<close>, in listing
  order, every line of that file that starts with none of the prefixes \<^verbatim>\<open><?xml\<close>, \<^verbatim>\<open><osm\<close>,
  \<^verbatim>\<open></osm\<close>, and finally the closing tag. Entries without the suffix contribute nothing, and a
  content line that happens to start with \<^verbatim>\<open><osm\<close> is dropped with the envelope lines.
\<close>

theorem merge_output:
  assumes "listdir environment input_folder = Inr names"
    and "open_ok environment output_file"
    and "\<forall>f \<in> set (filter (\<lambda>f. endswith f ''.osm'') names).
           snd (read_lines environment (path_join input_folder f)) = None"
  shows \<open>\<exists>w'. merge_osm_files environment input_folder output_file w = (None, w') \<and>
           map_of (files w') output_file =
             Some ((''<?xml version="1.0" encoding="UTF-8"?>'' @ [CHR 0x0A]) @
                   (''<osm version="0.6">'' @ [CHR 0x0A]) @
                   concat (map (\<lambda>f. concat (filter
                                  (\<lambda>line. \<not> (startswith line ''<?xml'' \<or> startswith line ''<osm'' \<or>
                                             startswith line ''</osm''))
                                  (fst (read_lines environment (path_join input_folder f)))))
                               (filter (\<lambda>f. endswith f ''.osm'') names)) @
                   ''</osm>'')\<close>
  using merge_osm_files_result[OF assms, of w]
  by (auto simp add: xml_decl_def osm_open_def osm_close_def is_envelope_def)

theorem merge_output_witness:
  \<open>listdir merge_env ''d'' = Inr [''a.osm'', ''notes.txt'', ''b.osm''] \<and>
   open_ok merge_env ''merged.osm'' \<and>
   filter (\<lambda>f. endswith f ''.osm'') [''a.osm'', ''notes.txt'', ''b.osm''] = [''a.osm'', ''b.osm''] \<and>
   snd (read_lines merge_env (path_join ''d'' ''a.osm'')) = None \<and>
   snd (read_lines merge_env (path_join ''d'' ''b.osm'')) = None \<and>
   (\<exists>w'. merge_osm_files merge_env ''d'' ''merged.osm'' empty_world = (None, w') \<and>
      map_of (files w') ''merged.osm'' =
        Some (''<?xml version="1.0" encoding="UTF-8"?>'' @ [CHR 0x0A] @
              ''<osm version="0.6">'' @ [CHR 0x0A] @
              '' <node id="1"/>'' @ [CHR 0x0A] @
              ''<way id="3"/>'' @ [CHR 0x0A] @
              ''</osm>''))\<close>
proof -
  have h1: "listdir merge_env ''d'' = Inr [''a.osm'', ''notes.txt'', ''b.osm'']"
    by (simp add: merge_env_def offline_env_def)
  have h2: "open_ok merge_env ''merged.osm''"
    by (simp add: merge_env_def offline_env_def)
  have fs: "filter (\<lambda>f. endswith f ''.osm'') [''a.osm'', ''notes.txt'', ''b.osm''] =
              [''a.osm'', ''b.osm'']"
    by (simp add: endswith_def suffix_def)
  have pa: "path_join ''d'' ''a.osm'' = ''d/a.osm''" and pb: "path_join ''d'' ''b.osm'' = ''d/b.osm''"
    by (simp_all add: path_join_def)
  have h3: "\<forall>f \<in> set (filter (\<lambda>f. endswith f ''.osm'') [''a.osm'', ''notes.txt'', ''b.osm'']).
      snd (read_lines merge_env (path_join ''d'' f)) = None"
    unfolding fs by (simp add: pa pb merge_env_def offline_env_def)
  have body: \<open>concat (map (\<lambda>f. concat (filter
                 (\<lambda>line. \<not> (startswith line ''<?xml'' \<or> startswith line ''<osm'' \<or>
                            startswith line ''</osm''))
                 (fst (read_lines merge_env (path_join ''d'' f)))))
              (filter (\<lambda>f. endswith f ''.osm'') [''a.osm'', ''notes.txt'', ''b.osm''])) =
           '' <node id="1"/>'' @ [CHR 0x0A] @ ''<way id="3"/>'' @ [CHR 0x0A]\<close>
    unfolding fs by (simp add: pa pb merge_env_def offline_env_def startswith_def)
  have ra: "snd (read_lines merge_env (path_join ''d'' ''a.osm'')) = None"
    and rb: "snd (read_lines merge_env (path_join ''d'' ''b.osm'')) = None"
    by (simp_all add: pa pb merge_env_def offline_env_def)
  note t = merge_output[OF h1 h2 h3, of empty_world]
  show ?thesis
    using t unfolding body by (intro conjI h1 h2 fs ra rb) simp
qed

text \<open>
  C10. When the input directory can be listed and holds no entry whose name ends in
  \<^verbatim>\<open>.osm\<close>, and the output file can be opened, \<open>merge_osm_files\<close> returns normally and the
  output file holds exactly the XML declaration line, the root open tag line and the closing
  tag, with nothing in between.
\<close>

theorem merge_of_nothing:
  assumes "listdir environment input_folder = Inr names"
    and "open_ok environment output_file"
    and "\<forall>f \<in> set names. \<not> endswith f ''.osm''"
  shows \<open>\<exists>w'. merge_osm_files environment input_folder output_file w = (None, w') \<and>
           map_of (files w') output_file =
             Some ((''<?xml version="1.0" encoding="UTF-8"?>'' @ [CHR 0x0A]) @
                   (''<osm version="0.6">'' @ [CHR 0x0A]) @ ''</osm>'')\<close>
proof -
  have e: "filter (\<lambda>f. endswith f ''.osm'') names = []"
    using assms(3) by (simp add: filter_empty_conv)
  have "\<forall>f \<in> set (filter (\<lambda>f. endswith f ''.osm'') names).
           snd (read_lines environment (path_join input_folder f)) = None"
    unfolding e by simp
  from merge_osm_files_result[OF assms(1,2) this, of w] show ?thesis
    unfolding e by (auto simp add: xml_decl_def osm_open_def osm_close_def)
qed

theorem merge_of_nothing_witness:
  \<open>listdir no_osm_env ''d'' = Inr [''notes.txt'', ''maps''] \<and>
   open_ok no_osm_env ''merged.osm'' \<and>
   \<not> endswith ''notes.txt'' ''.osm'' \<and> \<not> endswith ''maps'' ''.osm'' \<and>
   (\<exists>w'. merge_osm_files no_osm_env ''d'' ''merged.osm'' empty_world = (None, w') \<and>
      map_of (files w') ''merged.osm'' =
        Some ((''<?xml version="1.0" encoding="UTF-8"?>'' @ [CHR 0x0A]) @
              (''<osm version="0.6">'' @ [CHR 0x0A]) @ ''</osm>''))\<close>
proof -
  have h1: "listdir no_osm_env ''d'' = Inr [''notes.txt'', ''maps'']"
    by (simp add: no_osm_env_def offline_env_def)
  have h2: "open_ok no_osm_env ''merged.osm''"
    by (simp add: no_osm_env_def offline_env_def)
  have h3: "\<forall>f \<in> set [''notes.txt'', ''maps'']. \<not> endswith f ''.osm''"
    by (simp add: endswith_def suffix_def)
  have n1: "\<not> endswith ''notes.txt'' ''.osm''" and n2: "\<not> endswith ''maps'' ''.osm''"
    by (simp_all add: endswith_def suffix_def)
  note t = merge_of_nothing[OF h1 h2 h3, of empty_world]
  show ?thesis by (intro conjI h1 h2 n1 n2 t)
qed

section \<open>The grid of the driver\<close>
















section \<open>Fetching, failing and pausing\<close>

lemma fetch_failed:
  assumes "net environment (posts_so_far w) bbox = ConnectionFailed msg \<and> e = Transport msg \<or>
           net environment (posts_so_far w) bbox = Response status body \<and>
             400 \<le> status \<and> status < 600 \<and> e = HTTPError status"
  shows "fetch_osm_by_bbox environment bbox output_file w =
           (None, emit (PrintFailed e) (emit (Post bbox) (emit (PrintFetching bbox) w)))"
  using assms
  by (auto simp add: fetch_osm_by_bbox_def fetch_try_block_def Let_def raise_for_status_def)


text \<open>An exception that is not a \<^verbatim>\<open>RequestException\<close> is not caught.\<close>

lemma fetch_unwritable:
  assumes "net environment (posts_so_far w) bbox = Response status osm_data"
    and "\<not> (400 \<le> status \<and> status < 600)" "\<not> open_ok environment output_file"
  shows "fst (fetch_osm_by_bbox environment bbox output_file w) = Some (OSError output_file)"
  using assms
  by (auto simp add: fetch_osm_by_bbox_def fetch_try_block_def Let_def raise_for_status_def)




text \<open>
  C7. The pause exists to keep the requests below the rate limit of the service (the comment
  on \<^verbatim>\<open>time.sleep(2)\<close> says so), and a request that fails has been sent like one that
  succeeds. But the sleep is the last statement of the \<^verbatim>\<open>try\<close> block, and the \<^verbatim>\<open>except\<close>
  branch only prints: after a request that raised, and after an answer with an error status,
  the fetcher returns without pausing, and the caller sends the next request at once.
\<close>

theorem failed_fetch_does_not_pause:
  "fetch_osm_by_bbox offline_env unit_bbox ''part.osm'' empty_world =
     (None, \<lparr>files = [],
             trace = [PrintFetching unit_bbox, Post unit_bbox,
                      PrintFailed (Transport ''timeout'')]\<rparr>) \<and>
   fetch_osm_by_bbox server_error_env unit_bbox ''part.osm'' empty_world =
     (None, \<lparr>files = [],
             trace = [PrintFetching unit_bbox, Post unit_bbox, PrintFailed (HTTPError 503)]\<rparr>) \<and>
   Sleep 2 \<notin> set (trace (snd (fetch_osm_by_bbox offline_env unit_bbox ''part.osm'' empty_world))) \<and>
   Sleep 2 \<notin> set (trace (snd (fetch_osm_by_bbox server_error_env unit_bbox ''part.osm''
                                empty_world)))"
  by (simp add: fetch_osm_by_bbox_def fetch_try_block_def Let_def raise_for_status_def
      offline_env_def server_error_env_def empty_world_def emit_def posts_so_far_def)




text \<open>
  C9, as stated, fails for the status codes that are neither 2xx nor an error for
  \<^verbatim>\<open>raise_for_status\<close>: the status check lets them pass. After a final answer with status
  300, the destination, which held a file, holds the text of that answer.
\<close>

theorem multiple_choices_overwrites:
  "net multiple_choices_env (posts_so_far old_world) unit_bbox = Response 300 ''choices'' \<and>
   files old_world = [(''part.osm'', ''old'')] \<and>
   files (snd (fetch_osm_by_bbox multiple_choices_env unit_bbox ''part.osm'' old_world)) =
     [(''part.osm'', ''choices'')]"
  by (simp add: fetch_osm_by_bbox_def fetch_try_block_def Let_def raise_for_status_def
      multiple_choices_env_def offline_env_def old_world_def emit_def posts_so_far_def
      fwrite_def open_truncate_def)

text \<open>
  C9, as the code has it. When the request raises (a transport failure) or the answer has a
  status from 400 to 599, the fetcher touches no file: the files after the call are the
  files before it, so a file already at the destination path keeps its content and a
  missing one is not created. The status check precedes the opening of the file.
\<close>

theorem failed_fetch_leaves_files:
  assumes "net environment (posts_so_far w) bbox = ConnectionFailed msg \<or>
           net environment (posts_so_far w) bbox = Response status body \<and>
             400 \<le> status \<and> status < 600"
  shows "files (snd (fetch_osm_by_bbox environment bbox output_file w)) = files w"
proof -
  from assms have "\<exists>e. net environment (posts_so_far w) bbox = ConnectionFailed msg \<and>
             e = Transport msg \<or>
           net environment (posts_so_far w) bbox = Response status body \<and>
             400 \<le> status \<and> status < 600 \<and> e = HTTPError status"
    by blast
  then obtain e where "net environment (posts_so_far w) bbox = ConnectionFailed msg \<and>
             e = Transport msg \<or>
           net environment (posts_so_far w) bbox = Response status body \<and>
             400 \<le> status \<and> status < 600 \<and> e = HTTPError status" ..
  from fetch_failed[OF this, of output_file] show ?thesis by simp
qed

theorem failed_fetch_leaves_files_witness:
  "net server_error_env (posts_so_far old_world) unit_bbox = Response 503 ''busy'' \<and>
   400 \<le> (503::nat) \<and> (503::nat) < 600 \<and>
   files (snd (fetch_osm_by_bbox server_error_env unit_bbox ''part.osm'' old_world)) =
     files old_world \<and>
   files old_world = [(''part.osm'', ''old'')]"
proof -
  have f: "net server_error_env (posts_so_far old_world) unit_bbox = Response 503 ''busy''"
    by (simp add: server_error_env_def offline_env_def)
  have b: "400 \<le> (503::nat)" "(503::nat) < 600" by simp_all
  have h: "net server_error_env (posts_so_far old_world) unit_bbox = ConnectionFailed [] \<or>
           net server_error_env (posts_so_far old_world) unit_bbox = Response 503 ''busy'' \<and>
             400 \<le> (503::nat) \<and> (503::nat) < 600"
    using f by simp
  note t = failed_fetch_leaves_files[OF h, of "''part.osm''"]
  have o: "files old_world = [(''part.osm'', ''old'')]" by (simp add: old_world_def)
  show ?thesis by (intro conjI f b t o)
qed

end
